theory Spec2Isabelle
  imports Complex_Main "HOL-Library.AList"
begin

section \<open>Python values used by the board module\<close>

text \<open>
  Block types are Python strings (\<open>'RED'\<close>, \<open>'ORANGE'\<close>, ...); a grid cell is
  \<open>None\<close> or a block type; the grid is a list of rows. Dictionaries are association
  lists in insertion order, read through \<open>map_of\<close> and written with \<open>AList.update\<close>
  (an existing key keeps its place, a new key is appended, as in a Python dict).
\<close>

type_synonym block_type = string
type_synonym cell = "block_type option"
type_synonym matrix = "cell list list"
type_synonym counts = "(block_type \<times> int) list"

datatype error = IndexError

text \<open>\<open>d.get(k, dflt)\<close>.\<close>

definition dict_get :: "('k \<times> 'v) list \<Rightarrow> 'k \<Rightarrow> 'v \<Rightarrow> 'v" where
  "dict_get d k dflt = (case map_of d k of None \<Rightarrow> dflt | Some v \<Rightarrow> v)"

text \<open>\<open>{k: v for k in ks}\<close>: the keys are inserted in order, a repeated key overwrites.\<close>

definition dict_fromkeys :: "'k list \<Rightarrow> 'v \<Rightarrow> ('k \<times> 'v) list" where
  "dict_fromkeys ks v = fold (\<lambda>k d. AList.update k v d) ks []"

text \<open>
  Python list indexing \<open>xs[i]\<close> for a list of length \<open>n\<close>: indices \<open>0 .. n-1\<close>,
  negative indices \<open>-n .. -1\<close> count from the end, anything else raises IndexError
  (here: \<open>None\<close>).
\<close>

definition py_index :: "nat \<Rightarrow> int \<Rightarrow> nat option" where
  "py_index n i =
     (if 0 \<le> i \<and> i < int n then Some (nat i)
      else if - int n \<le> i \<and> i < 0 then Some (nat (int n + i))
      else None)"

text \<open>\<open>g[row][col]\<close> and \<open>g[row][col] = v\<close>.\<close>

definition grid_get :: "matrix \<Rightarrow> int \<Rightarrow> int \<Rightarrow> error + cell" where
  "grid_get g row col =
     (case py_index (length g) row of
        None \<Rightarrow> Inl IndexError
      | Some r \<Rightarrow>
          (case py_index (length (g ! r)) col of
             None \<Rightarrow> Inl IndexError
           | Some c \<Rightarrow> Inr (g ! r ! c)))"

definition grid_set :: "matrix \<Rightarrow> int \<Rightarrow> int \<Rightarrow> cell \<Rightarrow> error + matrix" where
  "grid_set g row col v =
     (case py_index (length g) row of
        None \<Rightarrow> Inl IndexError
      | Some r \<Rightarrow>
          (case py_index (length (g ! r)) col of
             None \<Rightarrow> Inl IndexError
           | Some c \<Rightarrow> Inr (g[r := (g ! r)[c := v]])))"

section \<open>Configuration\<close>

text \<open>
  A slot position is the dictionary \<open>{'id', 'center_col', 'center_row', 'cells'}\<close> of
  \<open>BLOCK_POSITIONS\<close>. The centre coordinates are only handed on to the sequencer;
  they are kept as rationals.
\<close>

record position =
  pos_id :: string
  center_col :: rat
  center_row :: rat
  cells :: "(int \<times> int) list"

text \<open>
  The constants that \<open>board_state.py\<close> and \<open>bot_logic.py\<close> import from \<open>config\<close>.
  The module \<open>config\<close> is not part of the sources at hand, so every definition below
  takes the configuration as a parameter.
\<close>

record config =
  BOARD_ROWS :: int
  BOARD_COLS :: int
  BLOCK_POSITIONS :: "(block_type \<times> position list) list"
  BLOCK_LIMITS :: "(block_type \<times> int) list"
  MAX_CHEST_RETRIES :: int

section \<open>BoardState (board\_state.py)\<close>

record board =
  grid :: matrix
  placed_counts :: counts
  used_positions :: "string set"

text \<open>\<open>[[None for _ in range(BOARD_COLS)] for _ in range(BOARD_ROWS)]\<close>\<close>

definition empty_grid :: "config \<Rightarrow> matrix" where
  "empty_grid cfg =
     replicate (nat (BOARD_ROWS cfg)) (replicate (nat (BOARD_COLS cfg)) None)"

text \<open>\<open>{block_type: 0 for block_type in BLOCK_LIMITS.keys()}\<close>\<close>

definition zero_counts :: "config \<Rightarrow> counts" where
  "zero_counts cfg = dict_fromkeys (map fst (BLOCK_LIMITS cfg)) 0"

definition BoardState_init :: "config \<Rightarrow> board" where
  "BoardState_init cfg =
     \<lparr>grid = empty_grid cfg, placed_counts = zero_counts cfg, used_positions = {}\<rparr>"

definition reset :: "config \<Rightarrow> board \<Rightarrow> board" where
  "reset cfg b =
     b\<lparr>grid := empty_grid cfg, placed_counts := zero_counts cfg, used_positions := {}\<rparr>"

text \<open>
  \<open>update_from_scan\<close>. The inner statement of the counting loop:
  \<open>if cell is not None and cell in cell_counts: cell_counts[cell] += 1\<close>.
\<close>

definition count_cell :: "counts \<Rightarrow> cell \<Rightarrow> counts" where
  "count_cell cell_counts c =
     (case c of
        None \<Rightarrow> cell_counts
      | Some t \<Rightarrow>
          (case map_of cell_counts t of
             None \<Rightarrow> cell_counts
           | Some n \<Rightarrow> AList.update t (n + 1) cell_counts))"

definition count_cells :: "matrix \<Rightarrow> counts \<Rightarrow> counts" where
  "count_cells g cell_counts =
     fold (\<lambda>row acc. fold (\<lambda>c a. count_cell a c) row acc) g cell_counts"

definition sizes :: "(block_type \<times> int) list" where
  "sizes = [(''CYAN'', 4), (''BLUE'', 3), (''RED'', 4), (''GREEN'', 3),
            (''YELLOW'', 3), (''ORANGE'', 1)]"

text \<open>
  The last loop of \<open>update_from_scan\<close> runs over the keys of \<open>cell_counts\<close> and reads
  \<open>cell_counts[block_type]\<close>; the model runs over the (key, value) pairs.
\<close>

definition pieces_of :: "block_type \<Rightarrow> int \<Rightarrow> int" where
  "pieces_of block_type n =
     (let size = dict_get sizes block_type 1 in (n + size - 1) div size)"

definition update_from_scan :: "config \<Rightarrow> board \<Rightarrow> matrix \<Rightarrow> board" where
  "update_from_scan cfg b scanned_grid =
     (let g = map (\<lambda>row. row) scanned_grid;
          cell_counts = count_cells g (zero_counts cfg)
      in b\<lparr>grid := g,
            placed_counts :=
              fold (\<lambda>(block_type, n) pc. AList.update block_type (pieces_of block_type n) pc)
                   cell_counts (placed_counts b)\<rparr>)"

definition can_place_block :: "config \<Rightarrow> board \<Rightarrow> block_type \<Rightarrow> bool" where
  "can_place_block cfg b block_type =
     (let limit = dict_get (BLOCK_LIMITS cfg) block_type 0;
          current = dict_get (placed_counts b) block_type 0
      in current < limit)"

text \<open>
  \<open>get_next_position\<close>. The inner loop stops at the first occupied cell (\<open>break\<close>),
  so cells after it are not read.
\<close>

fun all_free :: "matrix \<Rightarrow> (int \<times> int) list \<Rightarrow> error + bool" where
  "all_free g [] = Inr True"
| "all_free g ((row, col) # cs) =
     (case grid_get g row col of
        Inl e \<Rightarrow> Inl e
      | Inr None \<Rightarrow> all_free g cs
      | Inr (Some t) \<Rightarrow> Inr False)"

fun scan_positions :: "board \<Rightarrow> position list \<Rightarrow> error + position option" where
  "scan_positions b [] = Inr None"
| "scan_positions b (pos # positions) =
     (if pos_id pos \<in> used_positions b then scan_positions b positions
      else (case all_free (grid b) (cells pos) of
              Inl e \<Rightarrow> Inl e
            | Inr True \<Rightarrow> Inr (Some pos)
            | Inr False \<Rightarrow> scan_positions b positions))"

definition get_next_position :: "config \<Rightarrow> board \<Rightarrow> block_type \<Rightarrow> error + position option" where
  "get_next_position cfg b block_type =
     scan_positions b (dict_get (BLOCK_POSITIONS cfg) block_type [])"

text \<open>
  \<open>mark_position_used\<close>. The cells are written one after the other; an IndexError
  leaves the method before the counter and the used set are touched.
\<close>

fun write_cells :: "matrix \<Rightarrow> block_type \<Rightarrow> (int \<times> int) list \<Rightarrow> error + matrix" where
  "write_cells g block_type [] = Inr g"
| "write_cells g block_type ((row, col) # cs) =
     (case grid_set g row col (Some block_type) of
        Inl e \<Rightarrow> Inl e
      | Inr g' \<Rightarrow> write_cells g' block_type cs)"

definition mark_position_used :: "board \<Rightarrow> block_type \<Rightarrow> position \<Rightarrow> error + board" where
  "mark_position_used b block_type pos =
     (case write_cells (grid b) block_type (cells pos) of
        Inl e \<Rightarrow> Inl e
      | Inr g' \<Rightarrow>
          Inr (b\<lparr>grid := g',
                 placed_counts :=
                   AList.update block_type (dict_get (placed_counts b) block_type 0 + 1)
                     (placed_counts b),
                 used_positions := insert (pos_id pos) (used_positions b)\<rparr>))"

definition get_total_placed :: "board \<Rightarrow> int" where
  "get_total_placed b = sum_list (map snd (placed_counts b))"

definition is_complete :: "board \<Rightarrow> bool" where
  "is_complete b = (get_total_placed b \<ge> 7)"

definition get_empty_count :: "board \<Rightarrow> int" where
  "get_empty_count b =
     fold (\<lambda>row count. fold (\<lambda>c n. if c = None then n + 1 else n) row count) (grid b) 0"

section \<open>A sample configuration\<close>

text \<open>
  Modelled from the spec: \<open>config.py\<close> is missing from the sources. The spec fixes a
  4 x 6 grid, a quota of 2 for RED with slots R1 and R2 of four cells each, quota 0 for
  the always-rejected type ORANGE, seven pieces per board and a retry bound of 3. The
  remaining quotas and the cell coordinates are sample values; they are used only to
  evaluate the definitions on concrete inputs.
\<close>

definition R1 :: position where
  "R1 = \<lparr>pos_id = ''R1'', center_col = 1, center_row = 1,
         cells = [(0, 0), (0, 1), (1, 0), (1, 1)]\<rparr>"

definition R2 :: position where
  "R2 = \<lparr>pos_id = ''R2'', center_col = 3, center_row = 1,
         cells = [(0, 2), (0, 3), (1, 2), (1, 3)]\<rparr>"

definition B1 :: position where
  "B1 = \<lparr>pos_id = ''B1'', center_col = 5, center_row = 1,
         cells = [(0, 4), (0, 5), (1, 5)]\<rparr>"

definition B2 :: position where
  "B2 = \<lparr>pos_id = ''B2'', center_col = 5, center_row = 2,
         cells = [(1, 4), (2, 4), (2, 5)]\<rparr>"

definition C1 :: position where
  "C1 = \<lparr>pos_id = ''C1'', center_col = 2, center_row = 3,
         cells = [(2, 0), (2, 1), (2, 2), (2, 3)]\<rparr>"

definition G1 :: position where
  "G1 = \<lparr>pos_id = ''G1'', center_col = 2, center_row = 4,
         cells = [(3, 0), (3, 1), (3, 2)]\<rparr>"

definition Y1 :: position where
  "Y1 = \<lparr>pos_id = ''Y1'', center_col = 5, center_row = 4,
         cells = [(3, 3), (3, 4), (3, 5)]\<rparr>"

definition sample_limits :: "(block_type \<times> int) list" where
  "sample_limits =
     [(''CYAN'', 1), (''BLUE'', 2), (''RED'', 2), (''GREEN'', 1), (''YELLOW'', 1),
      (''ORANGE'', 0)]"

definition sample_positions :: "(block_type \<times> position list) list" where
  "sample_positions =
     [(''CYAN'', [C1]), (''BLUE'', [B1, B2]), (''RED'', [R1, R2]), (''GREEN'', [G1]),
      (''YELLOW'', [Y1])]"

definition sample_config :: config where
  "sample_config =
     \<lparr>BOARD_ROWS = 4, BOARD_COLS = 6,
      BLOCK_POSITIONS = sample_positions,
      BLOCK_LIMITS = sample_limits,
      MAX_CHEST_RETRIES = 3\<rparr>"

text \<open>A scanned grid with exactly five BLUE cells, and a board that has seen commits.\<close>

definition five_blue :: matrix where
  "five_blue =
     [[Some ''BLUE'', Some ''BLUE'', Some ''BLUE'', None, None, None],
      [Some ''BLUE'', Some ''BLUE'', None, None, None, None],
      [None, None, None, None, None, Some ''RED''],
      [None, None, None, None, None, None]]"

definition used_board :: board where
  "used_board =
     \<lparr>grid = empty_grid sample_config, placed_counts = [(''BLUE'', 1), (''RED'', 2)],
      used_positions = {''B1'', ''R1'', ''R2''}\<rparr>"

section \<open>Sequences of commits\<close>

text \<open>
  A sequence of \<open>mark_position_used\<close> calls, as the control loop issues them one per
  placed piece; an IndexError ends the sequence.
\<close>

fun commit_all :: "board \<Rightarrow> (block_type \<times> position) list \<Rightarrow> error + board" where
  "commit_all b [] = Inr b"
| "commit_all b ((block_type, pos) # rest) =
     (case mark_position_used b block_type pos of
        Inl e \<Rightarrow> Inl e
      | Inr b' \<Rightarrow> commit_all b' rest)"

text \<open>Commit sequences on the sample configuration and the boards they lead to.\<close>

definition two_reds :: "(block_type \<times> position) list" where
  "two_reds = [(''RED'', R1), (''RED'', R2)]"

definition after_two_reds :: board where
  "after_two_reds =
     \<lparr>grid =
        [[Some ''RED'', Some ''RED'', Some ''RED'', Some ''RED'', None, None],
         [Some ''RED'', Some ''RED'', Some ''RED'', Some ''RED'', None, None],
         [None, None, None, None, None, None],
         [None, None, None, None, None, None]],
      placed_counts =
        [(''CYAN'', 0), (''BLUE'', 0), (''RED'', 2), (''GREEN'', 0), (''YELLOW'', 0),
         (''ORANGE'', 0)],
      used_positions = {''R1'', ''R2''}\<rparr>"

definition seven_pieces :: "(block_type \<times> position) list" where
  "seven_pieces =
     [(''RED'', R1), (''RED'', R2), (''CYAN'', C1), (''BLUE'', B1), (''BLUE'', B2),
      (''GREEN'', G1), (''YELLOW'', Y1)]"

definition full_board :: board where
  "full_board =
     \<lparr>grid =
        [[Some ''RED'', Some ''RED'', Some ''RED'', Some ''RED'', Some ''BLUE'', Some ''BLUE''],
         [Some ''RED'', Some ''RED'', Some ''RED'', Some ''RED'', Some ''BLUE'', Some ''BLUE''],
         [Some ''CYAN'', Some ''CYAN'', Some ''CYAN'', Some ''CYAN'', Some ''BLUE'', Some ''BLUE''],
         [Some ''GREEN'', Some ''GREEN'', Some ''GREEN'', Some ''YELLOW'', Some ''YELLOW'',
          Some ''YELLOW'']],
      placed_counts =
        [(''CYAN'', 1), (''BLUE'', 2), (''RED'', 2), (''GREEN'', 1), (''YELLOW'', 1),
         (''ORANGE'', 0)],
      used_positions = {''R1'', ''R2'', ''C1'', ''B1'', ''B2'', ''G1'', ''Y1''}\<rparr>"

section \<open>Cells that exist in a grid\<close>

text \<open>
  \<open>in_grid g (row, col)\<close>: the indexing \<open>g[row][col]\<close> does not raise, that is, the
  pair addresses a cell of \<open>g\<close>.
\<close>

definition in_grid :: "matrix \<Rightarrow> int \<times> int \<Rightarrow> bool" where
  "in_grid g rc = (case grid_get g (fst rc) (snd rc) of Inl e \<Rightarrow> False | Inr c \<Rightarrow> True)"

definition after_R1 :: board where
  "after_R1 =
     \<lparr>grid =
        [[Some ''RED'', Some ''RED'', None, None, None, None],
         [Some ''RED'', Some ''RED'', None, None, None, None],
         [None, None, None, None, None, None],
         [None, None, None, None, None, None]],
      placed_counts =
        [(''CYAN'', 0), (''BLUE'', 0), (''RED'', 1), (''GREEN'', 0), (''YELLOW'', 0),
         (''ORANGE'', 0)],
      used_positions = {''R1''}\<rparr>"

section \<open>Placed counts against the consumed set\<close>

text \<open>
  The number of slot identifiers of the candidate list of a type that are in the
  consumed set.
\<close>

definition consumed_of_type :: "config \<Rightarrow> board \<Rightarrow> block_type \<Rightarrow> nat" where
  "consumed_of_type cfg b block_type =
     card (set (map pos_id (dict_get (BLOCK_POSITIONS cfg) block_type [])) \<inter> used_positions b)"

text \<open>
  A scan that finds one RED piece on the cells of slot R2 (left there by an earlier
  session), and the board after the control loop's start-up sequence \<open>reset\<close>,
  \<open>update_from_scan\<close>.
\<close>

definition scan_R2 :: matrix where
  "scan_R2 =
     [[None, None, Some ''RED'', Some ''RED'', None, None],
      [None, None, Some ''RED'', Some ''RED'', None, None],
      [None, None, None, None, None, None],
      [None, None, None, None, None, None]]"

definition rescanned :: board where
  "rescanned = update_from_scan sample_config (reset sample_config used_board) scan_R2"

definition after_rescan_R1 :: board where
  "after_rescan_R1 =
     \<lparr>grid =
        [[Some ''RED'', Some ''RED'', Some ''RED'', Some ''RED'', None, None],
         [Some ''RED'', Some ''RED'', Some ''RED'', Some ''RED'', None, None],
         [None, None, None, None, None, None],
         [None, None, None, None, None, None]],
      placed_counts =
        [(''CYAN'', 0), (''BLUE'', 0), (''RED'', 2), (''GREEN'', 0), (''YELLOW'', 0),
         (''ORANGE'', 0)],
      used_positions = {''R1''}\<rparr>"

definition twice_R1 :: board where
  "twice_R1 =
     \<lparr>grid =
        [[Some ''RED'', Some ''RED'', None, None, None, None],
         [Some ''RED'', Some ''RED'', None, None, None, None],
         [None, None, None, None, None, None],
         [None, None, None, None, None, None]],
      placed_counts =
        [(''CYAN'', 0), (''BLUE'', 0), (''RED'', 2), (''GREEN'', 0), (''YELLOW'', 0),
         (''ORANGE'', 0)],
      used_positions = {''R1''}\<rparr>"

section \<open>BotLogic (bot\_logic.py)\<close>

datatype BotState =
  IDLE | RUNNING | PAUSED | FETCHING | DETECTING | PLACING | DISCARDING | COMPLETING
  | ERROR | STOPPED

record stats =
  boards_completed :: int
  blocks_placed :: int
  blocks_discarded :: int
  current_board_blocks :: int

text \<open>
  The calls the worker makes to its collaborators, in the order it makes them:
  \<open>update_status\<close> (which assigns \<open>self.state\<close> and notifies the status callback), the
  sequencer's four actions, the detector, and the \<open>on_chest_empty\<close> callback.
\<close>

datatype event =
    Status BotState
  | FetchNewBlock
  | DetectAtParking
  | PlaceAt rat rat
  | DiscardCurrent
  | ConfirmCompletion
  | ChestEmpty

text \<open>
  The fields of \<open>BotLogic\<close> that the worker loop reads and writes. \<open>on_chest_empty\<close>
  records whether a callback is registered (the constructor sets it to \<open>None\<close>);
  \<open>trace\<close> collects the events, oldest first; \<open>detections\<close> counts the detector calls
  made so far. Logging and the sleeps between actions are left out.
\<close>

record bot =
  board :: board
  state :: BotState
  is_running :: bool
  is_paused :: bool
  should_stop :: bool
  stats :: stats
  on_chest_empty :: bool
  trace :: "event list"
  detections :: nat

text \<open>
  The detector is an external collaborator: \<open>detect k\<close> is what its \<open>k\<close>-th call
  returns (\<open>None\<close> when no block is recognised).
\<close>

type_synonym detector = "nat \<Rightarrow> block_type option"

definition BotLogic_init :: "config \<Rightarrow> bot" where
  "BotLogic_init cfg =
     \<lparr>board = BoardState_init cfg, state = IDLE, is_running = False, is_paused = False,
      should_stop = False,
      stats = \<lparr>boards_completed = 0, blocks_placed = 0, blocks_discarded = 0,
               current_board_blocks = 0\<rparr>,
      on_chest_empty = False, trace = [], detections = 0\<rparr>"

definition emit :: "event \<Rightarrow> bot \<Rightarrow> bot" where
  "emit e s = s\<lparr>trace := trace s @ [e]\<rparr>"

definition update_status :: "BotState \<Rightarrow> bot \<Rightarrow> bot" where
  "update_status st s = emit (Status st) (s\<lparr>state := st\<rparr>)"

text \<open>The \<open>while retries < MAX_CHEST_RETRIES\<close> loop of \<open>_fetch_block\<close>.\<close>

function fetch_attempts ::
  "config \<Rightarrow> detector \<Rightarrow> int \<Rightarrow> bot \<Rightarrow> block_type option \<times> bot" where
  "fetch_attempts cfg detect retries s =
     (if retries < MAX_CHEST_RETRIES cfg then
        (let s1 = emit FetchNewBlock s;
             s2 = update_status DETECTING s1;
             block_type = detect (detections s2);
             s3 = emit DetectAtParking (s2\<lparr>detections := detections s2 + 1\<rparr>)
         in (case block_type of
               Some t \<Rightarrow> (Some t, s3)
             | None \<Rightarrow> fetch_attempts cfg detect (retries + 1) s3))
      else (None, s))"
  by pat_completeness auto
termination
  by (relation "measure (\<lambda>(cfg, detect, retries, s). nat (MAX_CHEST_RETRIES cfg - retries))")
    auto

definition fetch_block :: "config \<Rightarrow> detector \<Rightarrow> bot \<Rightarrow> block_type option \<times> bot" where
  "fetch_block cfg detect s =
     (case fetch_attempts cfg detect 0 (update_status FETCHING s) of
        (Some t, s1) \<Rightarrow> (Some t, s1)
      | (None, s1) \<Rightarrow> (None, if on_chest_empty s1 then emit ChestEmpty s1 else s1))"

definition place_block :: "config \<Rightarrow> block_type \<Rightarrow> bot \<Rightarrow> error + bool \<times> bot" where
  "place_block cfg block_type s =
     (if \<not> can_place_block cfg (board s) block_type then Inr (False, s)
      else
        (case get_next_position cfg (board s) block_type of
           Inl e \<Rightarrow> Inl e
         | Inr None \<Rightarrow> Inr (False, s)
         | Inr (Some position) \<Rightarrow>
             (let s1 = update_status PLACING s;
                  s2 = emit (PlaceAt (center_col position) (center_row position)) s1
              in (case mark_position_used (board s2) block_type position of
                    Inl e \<Rightarrow> Inl e
                  | Inr b' \<Rightarrow>
                      Inr (True,
                           s2\<lparr>board := b',
                              stats := (stats s2)
                                \<lparr>blocks_placed := blocks_placed (stats s2) + 1,
                                 current_board_blocks :=
                                   current_board_blocks (stats s2) + 1\<rparr>\<rparr>)))))"

definition discard_block :: "block_type \<Rightarrow> bot \<Rightarrow> bot" where
  "discard_block block_type s =
     (let s1 = update_status DISCARDING s;
          s2 = emit DiscardCurrent s1
      in s2\<lparr>stats := (stats s2)\<lparr>blocks_discarded := blocks_discarded (stats s2) + 1\<rparr>\<rparr>)"

definition complete_board :: "config \<Rightarrow> bot \<Rightarrow> bot" where
  "complete_board cfg s =
     (let s1 = update_status COMPLETING s;
          s2 = emit ConfirmCompletion s1
      in s2\<lparr>stats := (stats s2)\<lparr>boards_completed := boards_completed (stats s2) + 1,
                                current_board_blocks := 0\<rparr>,
            board := reset cfg (board s2)\<rparr>)"

text \<open>
  One pass through the body of \<open>while self.is_running and not self.should_stop\<close> in
  \<open>_main_loop\<close>. The flags are written by the foreground thread; the pass reads the values
  they have when it starts. \<open>Break\<close>: the loop is left. \<open>Waiting\<close>: the pass is held in
  \<open>_wait_while_paused\<close>. \<open>Continue\<close>: the pass ran to its end or to a \<open>continue\<close>.
\<close>

datatype flow = Continue | Break | Waiting

definition loop_iteration :: "config \<Rightarrow> detector \<Rightarrow> bot \<Rightarrow> error + flow \<times> bot" where
  "loop_iteration cfg detect s =
     (if \<not> (is_running s \<and> \<not> should_stop s) then Inr (Break, s)
      else if is_paused s \<and> \<not> should_stop s then Inr (Waiting, s)
      else if should_stop s then Inr (Break, s)
      else if is_complete (board s) then Inr (Continue, complete_board cfg s)
      else
        (case fetch_block cfg detect s of
           (None, s1) \<Rightarrow> Inr (Continue, update_status PAUSED (s1\<lparr>is_paused := True\<rparr>))
         | (Some block_type, s1) \<Rightarrow>
             if block_type = ''ORANGE'' then Inr (Continue, discard_block block_type s1)
             else if can_place_block cfg (board s1) block_type then
               (case place_block cfg block_type s1 of
                  Inl e \<Rightarrow> Inl e
                | Inr (placed, s2) \<Rightarrow>
                    Inr (Continue, if \<not> placed then discard_block block_type s2 else s2))
             else Inr (Continue, discard_block block_type s1)))"

text \<open>\<open>n\<close> passes one after the other, as long as each one ends in \<open>Continue\<close>.\<close>

fun run_iterations :: "config \<Rightarrow> detector \<Rightarrow> nat \<Rightarrow> bot \<Rightarrow> error + flow \<times> bot" where
  "run_iterations cfg detect 0 s = Inr (Continue, s)"
| "run_iterations cfg detect (Suc n) s =
     (case loop_iteration cfg detect s of
        Inl e \<Rightarrow> Inl e
      | Inr (Continue, s') \<Rightarrow> run_iterations cfg detect n s'
      | Inr (Break, s') \<Rightarrow> Inr (Break, s')
      | Inr (Waiting, s') \<Rightarrow> Inr (Waiting, s'))"

definition is_place :: "event \<Rightarrow> bool" where
  "is_place e = (case e of PlaceAt x y \<Rightarrow> True | _ \<Rightarrow> False)"

text \<open>A bot inside its worker loop on the sample configuration, and two detectors.\<close>

definition running_bot :: bot where
  "running_bot = (BotLogic_init sample_config)\<lparr>state := RUNNING, is_running := True\<rparr>"

definition never_detects :: detector where
  "never_detects k = None"

definition always_orange :: detector where
  "always_orange k = Some ''ORANGE''"

text \<open>
  The sample bot with an \<open>on_chest_empty\<close> callback registered, and the states that a
  pass with three failed detections leads to, with and without the callback.
\<close>

definition notified_bot :: bot where
  "notified_bot = running_bot\<lparr>on_chest_empty := True\<rparr>"

definition failed_attempts :: "event list" where
  "failed_attempts =
     [Status FETCHING,
      FetchNewBlock, Status DETECTING, DetectAtParking,
      FetchNewBlock, Status DETECTING, DetectAtParking,
      FetchNewBlock, Status DETECTING, DetectAtParking]"

definition paused_notified :: bot where
  "paused_notified =
     notified_bot\<lparr>state := PAUSED, is_paused := True,
                  trace := failed_attempts @ [ChestEmpty, Status PAUSED], detections := 3\<rparr>"

definition paused_silent :: bot where
  "paused_silent =
     running_bot\<lparr>state := PAUSED, is_paused := True,
                 trace := failed_attempts @ [Status PAUSED], detections := 3\<rparr>"

text \<open>The sample bot after three passes that each classified ORANGE.\<close>

definition orange_pass :: "event list" where
  "orange_pass =
     [Status FETCHING, FetchNewBlock, Status DETECTING, DetectAtParking,
      Status DISCARDING, DiscardCurrent]"

definition after_three_oranges :: bot where
  "after_three_oranges =
     running_bot\<lparr>state := DISCARDING,
                 stats := \<lparr>boards_completed = 0, blocks_placed = 0, blocks_discarded = 3,
                           current_board_blocks = 0\<rparr>,
                 trace := orange_pass @ orange_pass @ orange_pass, detections := 3\<rparr>"

definition after_one_orange :: bot where
  "after_one_orange =
     running_bot\<lparr>state := DISCARDING,
                 stats := \<lparr>boards_completed = 0, blocks_placed = 0, blocks_discarded = 1,
                           current_board_blocks = 0\<rparr>,
                 trace := orange_pass, detections := 1\<rparr>"

section \<open>Dictionary lemmas\<close>

lemma map_of_fold_update:
  "map_of (fold (\<lambda>k d. AList.update k v d) ks d0) k =
     (if k \<in> set ks then Some v else map_of d0 k)"
  by (induction ks arbitrary: d0) (auto simp: update_conv')

lemma map_of_dict_fromkeys:
  "map_of (dict_fromkeys ks v) k = (if k \<in> set ks then Some v else None)"
  by (simp add: dict_fromkeys_def map_of_fold_update)

lemma distinct_fold_update:
  "distinct (map fst d0) \<Longrightarrow> distinct (map fst (fold (\<lambda>k d. AList.update k v d) ks d0))"
  by (induction ks arbitrary: d0) (auto simp: distinct_update)

lemma distinct_dict_fromkeys: "distinct (map fst (dict_fromkeys ks v))"
  by (simp add: dict_fromkeys_def distinct_fold_update)

lemma snd_fold_update:
  "\<forall>x \<in> set d0. snd x = v \<Longrightarrow>
   \<forall>x \<in> set (fold (\<lambda>k d. AList.update k v d) ks d0). snd x = v"
proof (induction ks arbitrary: d0)
  case Nil
  then show ?case by simp
next
  case (Cons k ks)
  have "\<forall>x \<in> set (AList.update k v d0). snd x = v"
    using Cons.prems by (induction d0) auto
  then show ?case using Cons.IH by simp
qed

lemma sum_list_all_zero:
  "\<forall>x \<in> set xs. snd x = (0::int) \<Longrightarrow> sum_list (map snd xs) = 0"
  by (induction xs) auto

lemma sum_list_zero_counts: "sum_list (map snd (zero_counts cfg)) = 0"
proof -
  have "\<forall>x \<in> set (zero_counts cfg). snd x = 0"
    unfolding zero_counts_def dict_fromkeys_def by (rule snd_fold_update) simp
  then show ?thesis by (rule sum_list_all_zero)
qed

lemma dict_get_zero_counts: "dict_get (zero_counts cfg) t 0 = 0"
  by (simp add: dict_get_def zero_counts_def map_of_dict_fromkeys)

lemma dict_get_update:
  "dict_get (AList.update k v d) k' dflt = (if k' = k then v else dict_get d k' dflt)"
  by (simp add: dict_get_def update_conv')

lemma sum_list_bump:
  "sum_list (map snd (AList.update k (dict_get d k 0 + 1) d)) = sum_list (map snd d) + (1::int)"
  by (induction d) (auto simp: dict_get_def)

lemma sum_list_counts_by_key:
  assumes "distinct (map fst pc)"
  shows "sum_list (map snd pc) = (\<Sum>t \<in> fst ` set pc. dict_get pc t (0::int))"
proof -
  have d: "distinct pc" and inj: "inj_on fst (set pc)"
    using assms by (simp_all add: distinct_map)
  have "sum_list (map snd pc) = sum snd (set pc)"
    using d by (rule sum_list_distinct_conv_sum_set)
  also have "\<dots> = sum (\<lambda>x. dict_get pc (fst x) 0) (set pc)"
  proof (rule sum.cong)
    fix x assume "x \<in> set pc"
    then have "map_of pc (fst x) = Some (snd x)" using assms by simp
    then show "snd x = dict_get pc (fst x) 0" by (simp add: dict_get_def)
  qed simp
  also have "\<dots> = (\<Sum>t \<in> fst ` set pc. dict_get pc t 0)"
    using inj by (simp add: sum.reindex comp_def)
  finally show ?thesis .
qed

section \<open>Facts about the sample configuration\<close>

lemma sample_config_simps:
  "BOARD_ROWS sample_config = 4"
  "BOARD_COLS sample_config = 6"
  "BLOCK_POSITIONS sample_config = sample_positions"
  "BLOCK_LIMITS sample_config = sample_limits"
  "MAX_CHEST_RETRIES sample_config = 3"
  by (simp_all add: sample_config_def)

lemma sample_quota:
  "dict_get sample_limits ''RED'' 0 = 2"
  "dict_get sample_limits ''BLUE'' 0 = 2"
  "dict_get sample_limits ''ORANGE'' 0 = 0"
  by (simp_all add: dict_get_def sample_limits_def)

section \<open>reload keeps the consumed set\<close>

text \<open>
  C3: \<open>update_from_scan\<close> replaces the grid and recomputes the placed counts, and
  leaves \<open>used_positions\<close> exactly as it was, for every board and every scanned grid.
  The new grid is the scanned one.
\<close>

theorem update_from_scan_keeps_used_positions:
  "used_positions (update_from_scan cfg b scanned_grid) = used_positions b
   \<and> grid (update_from_scan cfg b scanned_grid) = scanned_grid"
  by (simp add: update_from_scan_def Let_def)

section \<open>reload recomputes the placed counts\<close>

lemma map_fst_count_cell: "map fst (count_cell cc c) = map fst cc"
  by (auto simp: count_cell_def update_keys image_iff split: option.splits dest!: map_of_SomeD)

lemma map_of_count_cell:
  "map_of (count_cell cc c) t =
     (if c = Some t then map_option (\<lambda>n. n + 1) (map_of cc t) else map_of cc t)"
  by (auto simp: count_cell_def update_conv' split: option.splits)

lemma map_of_count_row:
  "map_of (fold (\<lambda>c a. count_cell a c) row cc) t =
     map_option (\<lambda>n. n + int (count_list row (Some t))) (map_of cc t)"
proof (induction row arbitrary: cc)
  case Nil
  then show ?case by (simp add: option.map_ident)
next
  case (Cons c row)
  show ?case
    by (simp add: Cons.IH map_of_count_cell option.map_comp comp_def add.assoc)
qed

lemma map_of_count_cells:
  "map_of (count_cells g cc) t =
     map_option (\<lambda>n. n + int (count_list (concat g) (Some t))) (map_of cc t)"
  unfolding count_cells_def
proof (induction g arbitrary: cc)
  case Nil
  then show ?case by (simp add: option.map_ident)
next
  case (Cons row g)
  show ?case
    by (simp add: Cons.IH map_of_count_row option.map_comp comp_def add.assoc)
qed

lemma map_fst_count_cells: "map fst (count_cells g cc) = map fst cc"
proof -
  have row: "map fst (fold (\<lambda>c a. count_cell a c) row cc') = map fst cc'" for row cc'
    by (induction row arbitrary: cc') (simp_all add: map_fst_count_cell)
  show ?thesis unfolding count_cells_def
    by (induction g arbitrary: cc) (simp_all add: row)
qed

lemma map_of_fold_pieces:
  "distinct (map fst cc) \<Longrightarrow>
   map_of (fold (\<lambda>(k, n) pc. AList.update k (f k n) pc) cc pc) t =
     (case map_of cc t of None \<Rightarrow> map_of pc t | Some n \<Rightarrow> Some (f t n))"
proof (induction cc arbitrary: pc)
  case Nil
  then show ?case by simp
next
  case (Cons x cc)
  obtain k n where x: "x = (k, n)" by (cases x)
  have d: "distinct (map fst cc)" and nk: "k \<notin> fst ` set cc"
    using Cons.prems by (auto simp: x)
  have none: "map_of cc k = None" using nk by (simp add: map_of_eq_None_iff)
  show ?case
    using Cons.IH [OF d, of "AList.update k (f k n) pc"] none
    by (auto simp: x update_conv' split: option.splits)
qed

lemma footprint_pos: "0 < dict_get sizes t 1"
  by (simp add: dict_get_def sizes_def)

lemma ceiling_div:
  fixes k s :: int
  assumes "0 < s"
  shows "\<lceil>(of_int k :: rat) / of_int s\<rceil> = (k + s - 1) div s"
proof -
  define a where "a = (k + s - 1) div s"
  have m: "(k + s - 1) mod s \<ge> 0" "(k + s - 1) mod s < s" using assms by simp_all
  have e: "k + s - 1 = a * s + (k + s - 1) mod s" by (simp add: a_def)
  have lo: "(a - 1) * s < k" using e m by (simp add: algebra_simps)
  have hi: "k \<le> a * s" using e m by (simp add: algebra_simps)
  have "(of_int ((a - 1) * s) :: rat) < of_int k" using lo by (simp only: of_int_less_iff)
  then have 1: "(of_int a - 1 :: rat) < of_int k / of_int s"
    using assms by (simp add: pos_less_divide_eq)
  have "(of_int k :: rat) \<le> of_int (a * s)" using hi by (simp only: of_int_le_iff)
  then have 2: "(of_int k :: rat) / of_int s \<le> of_int a"
    using assms by (simp add: pos_divide_le_eq)
  show ?thesis unfolding a_def[symmetric] using 1 2 by (simp add: ceiling_eq_iff)
qed

text \<open>
  C2: for every board, every scanned grid and every piece type \<open>t\<close> of the quota table,
  after \<open>update_from_scan\<close> the entry \<open>placed_counts[t]\<close> is the ceiling of K divided
  by the footprint size of \<open>t\<close>, where K is the number of cells of the scanned grid
  labelled \<open>t\<close>. The board before the call (its counts and its consumed set) does not
  matter.
\<close>

theorem update_from_scan_placed_count:
  assumes "t \<in> fst ` set (BLOCK_LIMITS cfg)"
  shows "map_of (placed_counts (update_from_scan cfg b scanned_grid)) t =
           Some \<lceil>rat_of_int (int (count_list (concat scanned_grid) (Some t)))
                   / rat_of_int (dict_get sizes t 1)\<rceil>"
proof -
  let ?cc = "count_cells scanned_grid (zero_counts cfg)"
  have d: "distinct (map fst ?cc)"
    by (simp add: map_fst_count_cells zero_counts_def distinct_dict_fromkeys)
  have z: "map_of (zero_counts cfg) t = Some 0"
    using assms by (simp add: zero_counts_def map_of_dict_fromkeys)
  have c: "map_of ?cc t = Some (int (count_list (concat scanned_grid) (Some t)))"
    by (simp add: map_of_count_cells z)
  have "map_of (placed_counts (update_from_scan cfg b scanned_grid)) t =
          Some (pieces_of t (int (count_list (concat scanned_grid) (Some t))))"
    by (simp add: update_from_scan_def Let_def map_of_fold_pieces [OF d] c)
  moreover have fp: "0 < dict_get sizes t 1" by (rule footprint_pos)
  ultimately show ?thesis
    using ceiling_div [OF fp, of "int (count_list (concat scanned_grid) (Some t))"]
    by (simp add: pieces_of_def Let_def)
qed

text \<open>The scenario of the spec: five BLUE cells (footprint 3) give two pieces.\<close>

theorem update_from_scan_placed_count_witness:
  "''BLUE'' \<in> fst ` set (BLOCK_LIMITS sample_config)
   \<and> count_list (concat five_blue) (Some ''BLUE'') = 5
   \<and> map_of (placed_counts (update_from_scan sample_config used_board five_blue)) ''BLUE'' = Some 2"
proof -
  have k: "''BLUE'' \<in> fst ` set (BLOCK_LIMITS sample_config)"
    by (simp add: sample_config_def sample_limits_def)
  have n: "count_list (concat five_blue) (Some ''BLUE'') = 5"
    by (simp add: five_blue_def)
  have s: "dict_get sizes ''BLUE'' 1 = 3" by (simp add: dict_get_def sizes_def)
  have "\<lceil>(5::rat) / 3\<rceil> = 2" by (simp add: ceiling_eq_iff)
  with update_from_scan_placed_count [OF k, of used_board five_blue] k n s show ?thesis
    by simp
qed

section \<open>reset and the fresh board\<close>

lemma reset_eq_init: "reset cfg b = BoardState_init cfg"
  by (cases b) (simp add: reset_def BoardState_init_def)

lemma empty_count_row:
  "fold (\<lambda>c n. if c = None then n + 1 else n) row (count::int) =
     count + int (count_list row None)"
  by (induction row arbitrary: count) simp_all

lemma get_empty_count_eq: "get_empty_count b = int (count_list (concat (grid b)) None)"
proof -
  have aux: "fold (\<lambda>row count. fold (\<lambda>c n. if c = None then n + 1 else n) row count) g (count::int)
          = count + int (count_list (concat g) None)" for g count
    by (induction g arbitrary: count) (simp_all add: empty_count_row)
  show ?thesis using aux [of "grid b" 0] by (simp add: get_empty_count_def)
qed

lemma count_list_empty_grid:
  "count_list (concat (replicate r (replicate k None))) None = r * k"
proof -
  have row: "count_list (replicate k None) None = k" for k :: nat
    by (induction k) simp_all
  show ?thesis by (induction r) (simp_all add: row)
qed

lemma get_empty_count_init:
  "get_empty_count (BoardState_init cfg) = int (nat (BOARD_ROWS cfg) * nat (BOARD_COLS cfg))"
  by (simp only: get_empty_count_eq BoardState_init_def empty_grid_def board.simps
        count_list_empty_grid)

lemma cells_init: "set (concat (grid (BoardState_init cfg))) \<subseteq> {None}"
  by (auto simp: BoardState_init_def empty_grid_def)

lemma total_init: "get_total_placed (BoardState_init cfg) = 0"
  by (simp add: get_total_placed_def BoardState_init_def sum_list_zero_counts)

text \<open>
  C8: whatever the board was, \<open>reset\<close> gives exactly the freshly constructed board, so
  \<open>can_place_block\<close>, \<open>get_empty_count\<close> and \<open>is_complete\<close> answer as on a fresh
  board; every cell of the grid is empty (all \<open>BOARD_ROWS * BOARD_COLS\<close> of them), every
  placed count is zero and the consumed set is empty.
\<close>

theorem reset_like_fresh_board:
  "reset cfg b = BoardState_init cfg
   \<and> can_place_block cfg (reset cfg b) t = can_place_block cfg (BoardState_init cfg) t
   \<and> get_empty_count (reset cfg b) = get_empty_count (BoardState_init cfg)
   \<and> is_complete (reset cfg b) = is_complete (BoardState_init cfg)
   \<and> set (concat (grid (reset cfg b))) \<subseteq> {None}
   \<and> get_empty_count (reset cfg b) = int (nat (BOARD_ROWS cfg) * nat (BOARD_COLS cfg))
   \<and> dict_get (placed_counts (reset cfg b)) t 0 = 0
   \<and> get_total_placed (reset cfg b) = 0
   \<and> used_positions (reset cfg b) = {}"
  unfolding reset_eq_init
  using cells_init [of cfg]
  by (simp add: get_empty_count_init total_init)
     (simp add: BoardState_init_def dict_get_zero_counts)

theorem reset_like_fresh_board_witness:
  "reset sample_config used_board = BoardState_init sample_config
   \<and> can_place_block sample_config (reset sample_config used_board) ''RED''
   \<and> get_empty_count (reset sample_config used_board) = 24
   \<and> \<not> is_complete (reset sample_config used_board)
   \<and> \<not> can_place_block sample_config used_board ''RED''"
proof -
  note r = reset_like_fresh_board [of sample_config used_board "''RED''"]
  from r have z: "dict_get (placed_counts (reset sample_config used_board)) ''RED'' 0 = 0"
    by blast
  have 1: "can_place_block sample_config (reset sample_config used_board) ''RED''"
    by (simp add: can_place_block_def z sample_config_simps sample_quota)
  from r have "get_empty_count (reset sample_config used_board) =
      int (nat (BOARD_ROWS sample_config) * nat (BOARD_COLS sample_config))"
    by blast
  then have 2: "get_empty_count (reset sample_config used_board) = 24"
    by (simp add: sample_config_simps)
  from r have "get_total_placed (reset sample_config used_board) = 0"
    by blast
  then have 3: "\<not> is_complete (reset sample_config used_board)"
    by (simp add: is_complete_def)
  have "dict_get (placed_counts used_board) ''RED'' 0 = 2"
    by (simp add: used_board_def dict_get_def)
  then have 4: "\<not> can_place_block sample_config used_board ''RED''"
    by (simp add: can_place_block_def sample_config_simps sample_quota)
  from r 1 2 3 4 show ?thesis by blast
qed

section \<open>Quota and completion\<close>

lemma mark_position_used_counts:
  "mark_position_used b t pos = Inr b' \<Longrightarrow>
   placed_counts b' = AList.update t (dict_get (placed_counts b) t 0 + 1) (placed_counts b)"
  by (auto simp: mark_position_used_def split: sum.splits)

lemma mark_position_used_used:
  "mark_position_used b t pos = Inr b' \<Longrightarrow>
   used_positions b' = insert (pos_id pos) (used_positions b)"
  by (auto simp: mark_position_used_def split: sum.splits)

lemma commit_all_count:
  "commit_all b cs = Inr b' \<Longrightarrow>
   dict_get (placed_counts b') t 0 =
     dict_get (placed_counts b) t 0 + int (count_list (map fst cs) t)"
proof (induction b cs rule: commit_all.induct)
  case (1 b)
  then show ?case by simp
next
  case (2 b block_type pos rest)
  then obtain b1 where m: "mark_position_used b block_type pos = Inr b1"
    and r: "commit_all b1 rest = Inr b'"
    by (auto split: sum.splits)
  show ?case
    using "2.IH" [OF m r] mark_position_used_counts [OF m]
    by (simp add: dict_get_update)
qed

lemma commit_all_total:
  "commit_all b cs = Inr b' \<Longrightarrow> get_total_placed b' = get_total_placed b + int (length cs)"
proof (induction b cs rule: commit_all.induct)
  case (1 b)
  then show ?case by simp
next
  case (2 b block_type pos rest)
  then obtain b1 where m: "mark_position_used b block_type pos = Inr b1"
    and r: "commit_all b1 rest = Inr b'"
    by (auto split: sum.splits)
  show ?case
    using "2.IH" [OF m r] mark_position_used_counts [OF m]
    by (simp add: get_total_placed_def sum_list_bump)
qed

text \<open>
  C5: \<open>can_place_block\<close> is true exactly when the placed count of the type is below its
  quota (a missing entry counts as 0 on either side); it returns a truth value only and
  no new board. Consequently, after a sequence of successful commits on a reset board,
  of which N are of type \<open>t\<close>, \<open>can_place_block\<close> is false for \<open>t\<close> exactly when N has
  reached the quota of \<open>t\<close>.
\<close>

theorem can_place_block_iff_below_quota:
  "(can_place_block cfg b t \<longleftrightarrow>
      dict_get (placed_counts b) t 0 < dict_get (BLOCK_LIMITS cfg) t 0)
   \<and> (\<forall>cs b'. commit_all (reset cfg b) cs = Inr b' \<longrightarrow>
         (\<not> can_place_block cfg b' t \<longleftrightarrow>
            int (count_list (map fst cs) t) \<ge> dict_get (BLOCK_LIMITS cfg) t 0))"
proof -
  have "\<not> can_place_block cfg b' t \<longleftrightarrow>
          int (count_list (map fst cs) t) \<ge> dict_get (BLOCK_LIMITS cfg) t 0"
    if "commit_all (reset cfg b) cs = Inr b'" for cs b'
    using commit_all_count [OF that, of t]
    by (simp add: can_place_block_def Let_def reset_def dict_get_zero_counts not_less)
  then show ?thesis
    by (simp add: can_place_block_def Let_def)
qed

theorem can_place_block_iff_below_quota_witness:
  "commit_all (reset sample_config used_board) two_reds = Inr after_two_reds
   \<and> can_place_block sample_config (reset sample_config used_board) ''RED''
   \<and> \<not> can_place_block sample_config after_two_reds ''RED''
   \<and> can_place_block sample_config after_two_reds ''BLUE''"
proof -
  have e: "commit_all (reset sample_config used_board) two_reds = Inr after_two_reds"
    by code_simp
  have e0: "commit_all (reset sample_config used_board) [] = Inr (reset sample_config used_board)"
    by simp
  have n: "count_list (map fst two_reds) ''RED'' = 2" "count_list (map fst two_reds) ''BLUE'' = 0"
    by (simp_all add: two_reds_def)
  note red = can_place_block_iff_below_quota
    [of sample_config used_board "''RED''", THEN conjunct2, rule_format]
  note blue = can_place_block_iff_below_quota
    [of sample_config used_board "''BLUE''", THEN conjunct2, rule_format]
  have 0: "can_place_block sample_config (reset sample_config used_board) ''RED''"
    using red [OF e0] by (simp add: sample_config_simps sample_quota)
  have 1: "\<not> can_place_block sample_config after_two_reds ''RED''"
    using red [OF e] n by (simp add: sample_config_simps sample_quota)
  have 2: "can_place_block sample_config after_two_reds ''BLUE''"
    using blue [OF e] n by (simp add: sample_config_simps sample_quota)
  from e 0 1 2 show ?thesis by blast
qed

text \<open>
  C7: \<open>is_complete\<close> is true exactly when the placed counts sum to at least 7 (the sum
  of the dictionary's values, which is the sum of \<open>placed_counts[t]\<close> over its keys
  \<open>t\<close>). On a reset board followed by successful commits it is true exactly when at
  least 7 pieces have been committed: false after each of the first six commits, true from
  the seventh on.
\<close>

theorem is_complete_iff_seven:
  "(is_complete b \<longleftrightarrow> sum_list (map snd (placed_counts b)) \<ge> 7)
   \<and> (distinct (map fst (placed_counts b)) \<longrightarrow>
        (is_complete b \<longleftrightarrow>
           (\<Sum>t \<in> fst ` set (placed_counts b). dict_get (placed_counts b) t 0) \<ge> 7))
   \<and> (\<forall>cs b'. commit_all (reset cfg b) cs = Inr b' \<longrightarrow>
         (is_complete b' \<longleftrightarrow> length cs \<ge> 7))"
proof -
  have "is_complete b' \<longleftrightarrow> length cs \<ge> 7"
    if "commit_all (reset cfg b) cs = Inr b'" for cs b'
    using commit_all_total [OF that] total_init [of cfg]
    by (simp add: is_complete_def reset_eq_init)
  then show ?thesis
    by (simp add: is_complete_def get_total_placed_def sum_list_counts_by_key)
qed



theorem is_complete_iff_seven_witness:
  "commit_all (reset sample_config used_board) two_reds = Inr after_two_reds
   \<and> \<not> is_complete after_two_reds
   \<and> commit_all (reset sample_config used_board) (take 6 seven_pieces) \<noteq> Inr full_board
   \<and> commit_all (reset sample_config used_board) seven_pieces = Inr full_board
   \<and> is_complete full_board
   \<and> distinct (map fst (placed_counts full_board))
   \<and> (\<Sum>t \<in> fst ` set (placed_counts full_board). dict_get (placed_counts full_board) t 0) \<ge> 7"
proof -
  have e2: "commit_all (reset sample_config used_board) two_reds = Inr after_two_reds"
    by code_simp
  have e7: "commit_all (reset sample_config used_board) seven_pieces = Inr full_board"
    by code_simp
  have e6: "commit_all (reset sample_config used_board) (take 6 seven_pieces) \<noteq> Inr full_board"
    by code_simp
  have d: "distinct (map fst (placed_counts full_board))"
    by (simp add: full_board_def)
  note t = is_complete_iff_seven
    [of used_board sample_config, THEN conjunct2, THEN conjunct2, rule_format]
  have 1: "\<not> is_complete after_two_reds"
    using t [OF e2] by (simp add: two_reds_def)
  have 2: "is_complete full_board"
    using t [OF e7] by (simp add: seven_pieces_def)
  have 3: "(\<Sum>t \<in> fst ` set (placed_counts full_board).
              dict_get (placed_counts full_board) t 0) \<ge> 7"
    using is_complete_iff_seven
      [of full_board sample_config, THEN conjunct2, THEN conjunct1, rule_format, OF d] 2
    by simp
  from e2 e6 e7 d 1 2 3 show ?thesis by blast
qed

section \<open>commit\<close>

lemma py_index_less: "py_index n i = Some k \<Longrightarrow> k < n"
  by (auto simp: py_index_def split: if_splits)

lemma in_grid_iff:
  "in_grid g (row, col) \<longleftrightarrow>
     (\<exists>r c. py_index (length g) row = Some r \<and> py_index (length (g ! r)) col = Some c)"
  by (auto simp: in_grid_def grid_get_def split: option.splits)

lemma grid_set_shape:
  assumes "grid_set g row col v = Inr g'"
  shows "length g' = length g" and "length (g' ! r) = length (g ! r)"
proof -
  from assms obtain r0 c0 where g': "g' = g[r0 := (g ! r0)[c0 := v]]"
    and r0: "py_index (length g) row = Some r0"
    by (auto simp: grid_set_def split: option.splits)
  show "length g' = length g" by (simp add: g')
  show "length (g' ! r) = length (g ! r)"
    using py_index_less [OF r0] by (cases "r = r0") (simp_all add: g')
qed

lemma grid_set_in_grid:
  "grid_set g row col v = Inr g' \<Longrightarrow> in_grid g' rc = in_grid g rc"
  by (cases rc) (simp add: in_grid_iff grid_set_shape)

lemma grid_set_ok:
  "in_grid g (row, col) \<Longrightarrow> \<exists>g'. grid_set g row col v = Inr g'"
  by (auto simp: in_grid_iff grid_set_def)

lemma grid_get_grid_set_same:
  assumes "grid_set g row col v = Inr g'"
  shows "grid_get g' row col = Inr v"
proof -
  from assms obtain r c where g': "g' = g[r := (g ! r)[c := v]]"
    and r: "py_index (length g) row = Some r"
    and c: "py_index (length (g ! r)) col = Some c"
    by (auto simp: grid_set_def split: option.splits)
  show ?thesis
    using py_index_less [OF r] py_index_less [OF c]
    by (simp add: grid_get_def g' r c)
qed

lemma grid_get_grid_set_keeps:
  assumes "grid_set g row col v = Inr g'" and "grid_get g row' col' = Inr v"
  shows "grid_get g' row' col' = Inr v"
proof -
  from assms(1) obtain r c where g': "g' = g[r := (g ! r)[c := v]]"
    and r: "py_index (length g) row = Some r"
    and c: "py_index (length (g ! r)) col = Some c"
    by (auto simp: grid_set_def split: option.splits)
  from assms(2) obtain r' c' where r': "py_index (length g) row' = Some r'"
    and c': "py_index (length (g ! r')) col' = Some c'" and v: "g ! r' ! c' = v"
    by (auto simp: grid_get_def split: option.splits)
  have "g' ! r' ! c' = v"
    using py_index_less [OF r] py_index_less [OF c] py_index_less [OF r'] py_index_less [OF c'] v
    by (cases "r' = r"; cases "c' = c") (simp_all add: g')
  moreover have "length (g' ! r') = length (g ! r')"
    using py_index_less [OF r] by (cases "r' = r") (simp_all add: g')
  ultimately show ?thesis
    by (simp add: grid_get_def g' r' c')
qed

lemma write_cells_keeps:
  "write_cells g t cs = Inr g' \<Longrightarrow> grid_get g row col = Inr (Some t) \<Longrightarrow>
   grid_get g' row col = Inr (Some t)"
proof (induction g t cs rule: write_cells.induct)
  case (1 g block_type)
  then show ?case by simp
next
  case (2 g block_type row0 col0 cs)
  from "2.prems"(1) obtain g1 where s: "grid_set g row0 col0 (Some block_type) = Inr g1"
    and w: "write_cells g1 block_type cs = Inr g'"
    by (auto split: sum.splits)
  show ?case
    using "2.IH" [OF s w] grid_get_grid_set_keeps [OF s "2.prems"(2)] by simp
qed

lemma write_cells_written:
  "write_cells g t cs = Inr g' \<Longrightarrow> (row, col) \<in> set cs \<Longrightarrow>
   grid_get g' row col = Inr (Some t)"
proof (induction g t cs rule: write_cells.induct)
  case (1 g block_type)
  then show ?case by simp
next
  case (2 g block_type row0 col0 cs)
  from "2.prems"(1) obtain g1 where s: "grid_set g row0 col0 (Some block_type) = Inr g1"
    and w: "write_cells g1 block_type cs = Inr g'"
    by (auto split: sum.splits)
  show ?case
  proof (cases "(row, col) = (row0, col0)")
    case True
    then show ?thesis
      using write_cells_keeps [OF w] grid_get_grid_set_same [OF s] by simp
  next
    case False
    then show ?thesis using "2.IH" [OF s w] "2.prems"(2) by auto
  qed
qed

lemma write_cells_ok:
  "\<forall>rc \<in> set cs. in_grid g rc \<Longrightarrow> \<exists>g'. write_cells g t cs = Inr g'"
proof (induction g t cs rule: write_cells.induct)
  case (1 g block_type)
  then show ?case by simp
next
  case (2 g block_type row col cs)
  from "2.prems" have "in_grid g (row, col)" by simp
  from grid_set_ok [OF this]
  obtain g1 where s: "grid_set g row col (Some block_type) = Inr g1" by blast
  have "\<forall>rc \<in> set cs. in_grid g1 rc"
    using "2.prems" by (simp add: grid_set_in_grid [OF s])
  from "2.IH" [OF s this] show ?case by (simp add: s)
qed

text \<open>
  C6: for every board, type \<open>t\<close> and slot whose cells are cells of the board's grid,
  \<open>mark_position_used\<close> returns normally; afterwards every cell listed by the slot holds
  \<open>t\<close> (so none of them is empty), the placed count of \<open>t\<close> has grown by exactly one,
  the counts of all other types are as before, and the slot's identifier has been added
  to the consumed set.
\<close>

theorem mark_position_used_effect:
  assumes "\<forall>rc \<in> set (cells pos). in_grid (grid b) rc"
  shows "\<exists>b'. mark_position_used b t pos = Inr b'
           \<and> (\<forall>(row, col) \<in> set (cells pos). grid_get (grid b') row col = Inr (Some t))
           \<and> dict_get (placed_counts b') t 0 = dict_get (placed_counts b) t 0 + 1
           \<and> (\<forall>t'. t' \<noteq> t \<longrightarrow>
                 dict_get (placed_counts b') t' 0 = dict_get (placed_counts b) t' 0)
           \<and> used_positions b' = insert (pos_id pos) (used_positions b)"
proof -
  from write_cells_ok [OF assms] obtain g' where w: "write_cells (grid b) t (cells pos) = Inr g'"
    by blast
  let ?b' = "b\<lparr>grid := g',
               placed_counts :=
                 AList.update t (dict_get (placed_counts b) t 0 + 1) (placed_counts b),
               used_positions := insert (pos_id pos) (used_positions b)\<rparr>"
  have m: "mark_position_used b t pos = Inr ?b'"
    by (simp add: mark_position_used_def w)
  have c: "\<forall>(row, col) \<in> set (cells pos). grid_get (grid ?b') row col = Inr (Some t)"
    using write_cells_written [OF w] by auto
  show ?thesis
    using m c by (intro exI [of _ ?b']) (simp add: dict_get_update)
qed


theorem mark_position_used_effect_witness:
  "list_all (in_grid (grid (BoardState_init sample_config))) (cells R1)
   \<and> mark_position_used (BoardState_init sample_config) ''RED'' R1 = Inr after_R1
   \<and> list_all (\<lambda>(row, col). grid_get (grid after_R1) row col = Inr (Some ''RED'')) (cells R1)
   \<and> dict_get (placed_counts (BoardState_init sample_config)) ''RED'' 0 = 0
   \<and> dict_get (placed_counts after_R1) ''RED'' 0 = 1
   \<and> used_positions after_R1 = insert ''R1'' (used_positions (BoardState_init sample_config))"
proof -
  have h: "list_all (in_grid (grid (BoardState_init sample_config))) (cells R1)"
    by code_simp
  then have h': "\<forall>rc \<in> set (cells R1). in_grid (grid (BoardState_init sample_config)) rc"
    by (simp add: list_all_iff)
  have e: "mark_position_used (BoardState_init sample_config) ''RED'' R1 = Inr after_R1"
    by code_simp
  have z: "dict_get (placed_counts (BoardState_init sample_config)) ''RED'' 0 = 0"
    by (simp add: BoardState_init_def dict_get_zero_counts)
  have i: "pos_id R1 = ''R1''" by (simp add: R1_def)
  from mark_position_used_effect [OF h', of "''RED''"] e z i h show ?thesis
    by (simp add: list_all_iff)
qed

section \<open>The next free slot\<close>

lemma all_free_True_iff:
  "all_free g cs = Inr True \<longleftrightarrow> (\<forall>(row, col) \<in> set cs. grid_get g row col = Inr None)"
  by (induction g cs rule: all_free.induct) (auto split: sum.splits option.splits)

lemma all_free_in_grid:
  "\<forall>rc \<in> set cs. in_grid g rc \<Longrightarrow>
   all_free g cs = Inr (\<forall>(row, col) \<in> set cs. grid_get g row col = Inr None)"
  by (induction g cs rule: all_free.induct)
     (auto simp: in_grid_def split: sum.splits option.splits)

lemma scan_positions_find:
  "\<forall>pos \<in> set ps. \<forall>rc \<in> set (cells pos). in_grid (grid b) rc \<Longrightarrow>
   scan_positions b ps =
     Inr (find (\<lambda>pos. pos_id pos \<notin> used_positions b
                 \<and> (\<forall>(row, col) \<in> set (cells pos). grid_get (grid b) row col = Inr None)) ps)"
  by (induction ps) (auto simp: all_free_in_grid split: bool.splits)

lemma scan_positions_sound:
  "scan_positions b ps = Inr (Some pos) \<Longrightarrow>
   pos \<in> set ps \<and> pos_id pos \<notin> used_positions b
   \<and> (\<forall>(row, col) \<in> set (cells pos). grid_get (grid b) row col = Inr None)"
proof (induction ps)
  case Nil
  then show ?case by simp
next
  case (Cons p ps)
  show ?case
  proof (cases "pos_id p \<in> used_positions b")
    case True
    then show ?thesis using Cons by simp
  next
    case False
    show ?thesis
    proof (cases "all_free (grid b) (cells p)")
      case (Inl e)
      then show ?thesis using Cons.prems False by simp
    next
      case (Inr free)
      show ?thesis
      proof (cases free)
        case True
        then have "pos = p" using Cons.prems False Inr by simp
        then show ?thesis using False Inr True by (simp add: all_free_True_iff)
      next
        case f: False
        then show ?thesis using Cons False Inr by simp
      qed
    qed
  qed
qed

text \<open>
  C1: for every board and type \<open>t\<close>, \<open>get_next_position\<close> returns the first slot of
  the candidate list of \<open>t\<close>, in list order, whose identifier is not in the consumed set
  and all of whose cells are empty, and \<open>None\<close> when no candidate qualifies (the
  candidates' cells being cells of the grid, so that reading them does not raise).
  Whenever it returns a slot, that slot is a candidate of \<open>t\<close>, its identifier is not
  consumed and every one of its cells is empty.
\<close>

theorem get_next_position_first_free:
  "((\<forall>pos \<in> set (dict_get (BLOCK_POSITIONS cfg) t []).
       \<forall>rc \<in> set (cells pos). in_grid (grid b) rc) \<longrightarrow>
    get_next_position cfg b t =
      Inr (find (\<lambda>pos. pos_id pos \<notin> used_positions b
                  \<and> (\<forall>(row, col) \<in> set (cells pos). grid_get (grid b) row col = Inr None))
             (dict_get (BLOCK_POSITIONS cfg) t [])))
   \<and> (\<forall>pos. get_next_position cfg b t = Inr (Some pos) \<longrightarrow>
         pos \<in> set (dict_get (BLOCK_POSITIONS cfg) t [])
         \<and> pos_id pos \<notin> used_positions b
         \<and> (\<forall>(row, col) \<in> set (cells pos). grid_get (grid b) row col = Inr None))"
  unfolding get_next_position_def
  using scan_positions_find [of "dict_get (BLOCK_POSITIONS cfg) t []" b]
        scan_positions_sound [of b "dict_get (BLOCK_POSITIONS cfg) t []"]
  by blast


theorem get_next_position_first_free_witness:
  "list_all (\<lambda>pos. list_all (in_grid (grid after_R1)) (cells pos))
      (dict_get (BLOCK_POSITIONS sample_config) ''RED'' [])
   \<and> dict_get (BLOCK_POSITIONS sample_config) ''RED'' [] = [R1, R2]
   \<and> get_next_position sample_config after_R1 ''RED'' = Inr (Some R2)
   \<and> find (\<lambda>pos. pos_id pos \<notin> used_positions after_R1
               \<and> list_all (\<lambda>(row, col). grid_get (grid after_R1) row col = Inr None)
                     (cells pos)) [R1, R2] = Some R2
   \<and> pos_id R1 \<in> used_positions after_R1
   \<and> pos_id R2 \<notin> used_positions after_R1
   \<and> list_all (\<lambda>(row, col). grid_get (grid after_R1) row col = Inr None) (cells R2)"
proof -
  have h: "list_all (\<lambda>pos. list_all (in_grid (grid after_R1)) (cells pos))
             (dict_get (BLOCK_POSITIONS sample_config) ''RED'' [])"
    by code_simp
  have c: "dict_get (BLOCK_POSITIONS sample_config) ''RED'' [] = [R1, R2]"
    by (simp add: sample_config_simps sample_positions_def dict_get_def)
  have e: "get_next_position sample_config after_R1 ''RED'' = Inr (Some R2)"
    by code_simp
  have u: "pos_id R1 \<in> used_positions after_R1"
    by (simp add: R1_def after_R1_def)
  from h have h': "\<forall>pos \<in> set (dict_get (BLOCK_POSITIONS sample_config) ''RED'' []).
                     \<forall>rc \<in> set (cells pos). in_grid (grid after_R1) rc"
    by (simp only: list_all_iff)
  note t1 = get_next_position_first_free
    [of sample_config "''RED''" after_R1, THEN conjunct1, THEN mp, OF h']
  note t2 = get_next_position_first_free
    [of sample_config "''RED''" after_R1, THEN conjunct2, rule_format, OF e]
  have f: "find (\<lambda>pos. pos_id pos \<notin> used_positions after_R1
               \<and> list_all (\<lambda>(row, col). grid_get (grid after_R1) row col = Inr None)
                     (cells pos)) [R1, R2] = Some R2"
    using t1 unfolding e c list_all_iff by (simp only: sum.inject)
  have s: "pos_id R2 \<notin> used_positions after_R1"
      "list_all (\<lambda>(row, col). grid_get (grid after_R1) row col = Inr None) (cells R2)"
    using t2 unfolding list_all_iff by blast+
  from h c e f u s show ?thesis by blast
qed

section \<open>Placed counts and consumed identifiers\<close>

lemma consumed_of_type_init: "consumed_of_type cfg (BoardState_init cfg) t = 0"
  by (simp add: consumed_of_type_def BoardState_init_def)

lemma consumed_of_type_insert:
  assumes "used_positions b' = insert i (used_positions b)" and "i \<notin> used_positions b"
  shows "consumed_of_type cfg b' t =
           (if i \<in> set (map pos_id (dict_get (BLOCK_POSITIONS cfg) t []))
            then consumed_of_type cfg b t + 1 else consumed_of_type cfg b t)"
proof -
  let ?ids = "set (map pos_id (dict_get (BLOCK_POSITIONS cfg) t []))"
  have fin: "finite (?ids \<inter> used_positions b)" by simp
  show ?thesis
  proof (cases "i \<in> ?ids")
    case True
    then have "?ids \<inter> used_positions b' = insert i (?ids \<inter> used_positions b)"
      using assms(1) by auto
    moreover have "i \<notin> ?ids \<inter> used_positions b" using assms(2) by simp
    ultimately show ?thesis
      using True fin by (simp add: consumed_of_type_def del: set_map)
  next
    case False
    then have "?ids \<inter> used_positions b' = ?ids \<inter> used_positions b"
      using assms(1) by auto
    then show ?thesis using False by (simp add: consumed_of_type_def del: set_map)
  qed
qed

text \<open>
  C4 (as amended): \<open>reset\<close> establishes, for every type, that the placed count equals
  the number of the type's slot identifiers in the consumed set; and
  \<open>mark_position_used\<close> preserves this for every type when it held before the call,
  the slot was returned by \<open>get_next_position\<close> for the committed type, and the slot's
  identifier occurs in no other type's candidate list.
\<close>

theorem counts_match_consumed:
  "(\<forall>t. dict_get (placed_counts (reset cfg b0)) t 0 = int (consumed_of_type cfg (reset cfg b0) t))
   \<and> (\<forall>b t pos b'.
         (\<forall>t'. dict_get (placed_counts b) t' 0 = int (consumed_of_type cfg b t'))
         \<and> get_next_position cfg b t = Inr (Some pos)
         \<and> (\<forall>t'. t' \<noteq> t \<longrightarrow>
               pos_id pos \<notin> set (map pos_id (dict_get (BLOCK_POSITIONS cfg) t' [])))
         \<and> mark_position_used b t pos = Inr b'
         \<longrightarrow> (\<forall>t'. dict_get (placed_counts b') t' 0 = int (consumed_of_type cfg b' t')))"
proof -
  have est: "dict_get (placed_counts (reset cfg b0)) t 0 = int (consumed_of_type cfg (reset cfg b0) t)"
    for t
    by (simp add: reset_eq_init consumed_of_type_init)
       (simp add: BoardState_init_def dict_get_zero_counts)
  have pres: "dict_get (placed_counts b') t' 0 = int (consumed_of_type cfg b' t')"
    if inv: "\<forall>t'. dict_get (placed_counts b) t' 0 = int (consumed_of_type cfg b t')"
      and nxt: "get_next_position cfg b t = Inr (Some pos)"
      and own: "\<forall>t'. t' \<noteq> t \<longrightarrow>
                  pos_id pos \<notin> set (map pos_id (dict_get (BLOCK_POSITIONS cfg) t' []))"
      and m: "mark_position_used b t pos = Inr b'"
    for b t pos b' t'
  proof -
    from nxt have mem: "pos \<in> set (dict_get (BLOCK_POSITIONS cfg) t [])"
      and fresh: "pos_id pos \<notin> used_positions b"
      using scan_positions_sound [of b "dict_get (BLOCK_POSITIONS cfg) t []" pos]
      by (simp_all add: get_next_position_def)
    note c = consumed_of_type_insert [OF mark_position_used_used [OF m] fresh, of cfg t']
    show ?thesis
    proof (cases "t' = t")
      case True
      have "pos_id pos \<in> set (map pos_id (dict_get (BLOCK_POSITIONS cfg) t []))"
        using mem by simp
      then show ?thesis
        using c inv True by (simp add: mark_position_used_counts [OF m] dict_get_update)
    next
      case False
      then show ?thesis
        using c inv own by (simp add: mark_position_used_counts [OF m] dict_get_update)
    qed
  qed
  show ?thesis using est pres by blast
qed

theorem counts_match_consumed_witness:
  "get_next_position sample_config (BoardState_init sample_config) ''RED'' = Inr (Some R1)
   \<and> mark_position_used (BoardState_init sample_config) ''RED'' R1 = Inr after_R1
   \<and> dict_get (placed_counts after_R1) ''RED'' 0
       = int (consumed_of_type sample_config after_R1 ''RED'')
   \<and> consumed_of_type sample_config after_R1 ''RED'' = 1
   \<and> dict_get (placed_counts after_R1) ''BLUE'' 0
       = int (consumed_of_type sample_config after_R1 ''BLUE'')
   \<and> consumed_of_type sample_config after_R1 ''BLUE'' = 0"
proof -
  let ?b = "BoardState_init sample_config"
  note est = counts_match_consumed [of sample_config used_board, THEN conjunct1]
  note pres = counts_match_consumed [of sample_config used_board, THEN conjunct2, rule_format]
  have inv: "\<forall>t'. dict_get (placed_counts ?b) t' 0 = int (consumed_of_type sample_config ?b t')"
    using est unfolding reset_eq_init .
  have nxt: "get_next_position sample_config ?b ''RED'' = Inr (Some R1)"
    by code_simp
  have own: "\<forall>t'. t' \<noteq> ''RED'' \<longrightarrow>
               pos_id R1 \<notin> set (map pos_id (dict_get (BLOCK_POSITIONS sample_config) t' []))"
    by (auto simp: sample_config_simps sample_positions_def dict_get_def
          R1_def R2_def B1_def B2_def C1_def G1_def Y1_def)
  have m: "mark_position_used ?b ''RED'' R1 = Inr after_R1"
    by code_simp
  have all: "dict_get (placed_counts after_R1) t' 0
               = int (consumed_of_type sample_config after_R1 t')" for t'
    using pres [of ?b "''RED''" R1 after_R1 t'] inv nxt own m by blast
  have r: "consumed_of_type sample_config after_R1 ''RED'' = 1"
    by code_simp
  have bl: "consumed_of_type sample_config after_R1 ''BLUE'' = 0"
    by code_simp
  from nxt m all [of "''RED''"] all [of "''BLUE''"] r bl show ?thesis by blast
qed

text \<open>
  C4 as stated fails. After the start-up sequence \<open>reset\<close>, \<open>update_from_scan\<close> on a
  board that already shows one RED piece, the commit of the slot that
  \<open>get_next_position\<close> offers leaves the RED count at 2 with one RED identifier
  consumed. Committing the same slot twice, without the check, does the same.
\<close>

theorem counts_match_consumed_counterexample:
  "get_next_position sample_config rescanned ''RED'' = Inr (Some R1)
   \<and> mark_position_used rescanned ''RED'' R1 = Inr after_rescan_R1
   \<and> dict_get (placed_counts after_rescan_R1) ''RED'' 0 = 2
   \<and> consumed_of_type sample_config after_rescan_R1 ''RED'' = 1
   \<and> dict_get (placed_counts after_rescan_R1) ''RED'' 0
       \<noteq> int (consumed_of_type sample_config after_rescan_R1 ''RED'')
   \<and> commit_all (reset sample_config used_board) [(''RED'', R1), (''RED'', R1)] = Inr twice_R1
   \<and> dict_get (placed_counts twice_R1) ''RED'' 0 = 2
   \<and> consumed_of_type sample_config twice_R1 ''RED'' = 1"
  by code_simp

section \<open>The worker loop\<close>

lemma fetch_attempts_frame:
  "fetch_attempts cfg detect retries s = (r, s') \<Longrightarrow>
   board s' = board s \<and> stats s' = stats s \<and> is_running s' = is_running s
   \<and> is_paused s' = is_paused s \<and> should_stop s' = should_stop s
   \<and> on_chest_empty s' = on_chest_empty s
   \<and> (\<exists>evs. trace s' = trace s @ evs
          \<and> set evs \<subseteq> {FetchNewBlock, Status DETECTING, DetectAtParking})"
proof (induction cfg detect retries s rule: fetch_attempts.induct)
  case (1 cfg detect retries s)
  let ?s3 = "emit DetectAtParking
               ((update_status DETECTING (emit FetchNewBlock s))
                  \<lparr>detections := detections (update_status DETECTING (emit FetchNewBlock s)) + 1\<rparr>)"
  have tr3: "trace ?s3 = trace s @ [FetchNewBlock, Status DETECTING, DetectAtParking]"
    by (simp add: emit_def update_status_def)
  have fr3: "board ?s3 = board s" "stats ?s3 = stats s" "is_running ?s3 = is_running s"
    "is_paused ?s3 = is_paused s" "should_stop ?s3 = should_stop s"
    "on_chest_empty ?s3 = on_chest_empty s"
    by (simp_all add: emit_def update_status_def)
  show ?case
  proof (cases "retries < MAX_CHEST_RETRIES cfg")
    case False
    then have "s' = s" using "1.prems" by simp
    then show ?thesis by simp
  next
    case True
    show ?thesis
    proof (cases "detect (detections s)")
      case (Some t)
      then have "s' = ?s3"
        using "1.prems" True by (simp add: Let_def emit_def update_status_def)
      then show ?thesis using tr3 fr3 by simp
    next
      case None
      then have rec: "fetch_attempts cfg detect (retries + 1) ?s3 = (r, s')"
        using "1.prems" True by (simp add: Let_def emit_def update_status_def)
      have d: "detect (detections (update_status DETECTING (emit FetchNewBlock s))) = None"
        using None by (simp add: emit_def update_status_def)
      from "1.IH" [OF True refl refl refl refl d rec]
      obtain evs where f: "board s' = board ?s3" "stats s' = stats ?s3"
          "is_running s' = is_running ?s3" "is_paused s' = is_paused ?s3"
          "should_stop s' = should_stop ?s3" "on_chest_empty s' = on_chest_empty ?s3"
        and t: "trace s' = trace ?s3 @ evs"
        and e: "set evs \<subseteq> {FetchNewBlock, Status DETECTING, DetectAtParking}"
        by blast
      have "trace s' = trace s @ ([FetchNewBlock, Status DETECTING, DetectAtParking] @ evs)"
        using t tr3 by simp
      moreover have "set ([FetchNewBlock, Status DETECTING, DetectAtParking] @ evs)
                       \<subseteq> {FetchNewBlock, Status DETECTING, DetectAtParking}"
        using e by auto
      ultimately show ?thesis using f fr3 by metis
    qed
  qed
qed


lemma fetch_attempts_all_fail:
  "\<forall>k < nat (MAX_CHEST_RETRIES cfg - retries). detect (detections s + k) = None \<Longrightarrow>
   fst (fetch_attempts cfg detect retries s) = None
   \<and> count_list (trace (snd (fetch_attempts cfg detect retries s))) FetchNewBlock
       = count_list (trace s) FetchNewBlock + nat (MAX_CHEST_RETRIES cfg - retries)"
proof (induction cfg detect retries s rule: fetch_attempts.induct)
  case (1 cfg detect retries s)
  let ?s3 = "emit DetectAtParking
               ((update_status DETECTING (emit FetchNewBlock s))
                  \<lparr>detections := detections (update_status DETECTING (emit FetchNewBlock s)) + 1\<rparr>)"
  show ?case
  proof (cases "retries < MAX_CHEST_RETRIES cfg")
    case False
    then show ?thesis by simp
  next
    case True
    then have "0 < nat (MAX_CHEST_RETRIES cfg - retries)" by simp
    with "1.prems" have "detect (detections s + 0) = None" by blast
    then have d0: "detect (detections s) = None" by simp
    then have d: "detect (detections (update_status DETECTING (emit FetchNewBlock s))) = None"
      by (simp add: emit_def update_status_def)
    have step: "fetch_attempts cfg detect retries s = fetch_attempts cfg detect (retries + 1) ?s3"
      using True d0 by (simp add: Let_def emit_def update_status_def)
    have later: "\<forall>k < nat (MAX_CHEST_RETRIES cfg - (retries + 1)). detect (detections ?s3 + k) = None"
    proof (intro allI impI)
      fix k assume "k < nat (MAX_CHEST_RETRIES cfg - (retries + 1))"
      then have "Suc k < nat (MAX_CHEST_RETRIES cfg - retries)" by simp
      with "1.prems" have "detect (detections s + Suc k) = None" by blast
      then show "detect (detections ?s3 + k) = None"
        by (simp add: emit_def update_status_def)
    qed
    have n: "nat (MAX_CHEST_RETRIES cfg - retries) = Suc (nat (MAX_CHEST_RETRIES cfg - (retries + 1)))"
      using True by simp
    have c3: "count_list (trace ?s3) FetchNewBlock = count_list (trace s) FetchNewBlock + 1"
      by (simp add: emit_def update_status_def)
    from "1.IH" [OF True refl refl refl refl d later] show ?thesis
      unfolding step using c3 n by simp
  qed
qed

lemma fetch_attempts_first:
  assumes "0 < MAX_CHEST_RETRIES cfg" and "detect (detections s) = Some t"
  shows "fetch_attempts cfg detect 0 s =
           (Some t, emit DetectAtParking
                      ((update_status DETECTING (emit FetchNewBlock s))
                         \<lparr>detections := detections s + 1\<rparr>))"
  using assms by (simp add: Let_def emit_def update_status_def)

lemma fetch_block_frame:
  assumes "fetch_block cfg detect s = (r, s')"
  shows "board s' = board s \<and> stats s' = stats s \<and> is_running s' = is_running s
         \<and> is_paused s' = is_paused s \<and> should_stop s' = should_stop s
         \<and> on_chest_empty s' = on_chest_empty s
         \<and> (\<exists>evs. trace s' = trace s @ Status FETCHING # evs
                @ (if r = None \<and> on_chest_empty s then [ChestEmpty] else [])
                \<and> set evs \<subseteq> {FetchNewBlock, Status DETECTING, DetectAtParking})"
proof -
  let ?s0 = "update_status FETCHING s"
  obtain r1 s1 where fa: "fetch_attempts cfg detect 0 ?s0 = (r1, s1)"
    by (cases "fetch_attempts cfg detect 0 ?s0")
  from fetch_attempts_frame [OF fa]
  obtain evs where f: "board s1 = board ?s0" "stats s1 = stats ?s0"
      "is_running s1 = is_running ?s0" "is_paused s1 = is_paused ?s0"
      "should_stop s1 = should_stop ?s0" "on_chest_empty s1 = on_chest_empty ?s0"
    and t: "trace s1 = trace ?s0 @ evs"
    and e: "set evs \<subseteq> {FetchNewBlock, Status DETECTING, DetectAtParking}"
    by blast
  have f0: "board ?s0 = board s" "stats ?s0 = stats s" "is_running ?s0 = is_running s"
    "is_paused ?s0 = is_paused s" "should_stop ?s0 = should_stop s"
    "on_chest_empty ?s0 = on_chest_empty s" "trace ?s0 = trace s @ [Status FETCHING]"
    by (simp_all add: emit_def update_status_def)
  show ?thesis
  proof (cases r1)
    case None
    then have r: "r = None"
      and s': "s' = (if on_chest_empty s1 then emit ChestEmpty s1 else s1)"
      using assms fa by (simp_all add: fetch_block_def)
    have "trace s' = trace s @ Status FETCHING # evs
            @ (if r = None \<and> on_chest_empty s then [ChestEmpty] else [])"
      using s' r t f f0 by (simp add: emit_def)
    moreover have "board s' = board s" "stats s' = stats s" "is_running s' = is_running s"
      "is_paused s' = is_paused s" "should_stop s' = should_stop s"
      "on_chest_empty s' = on_chest_empty s"
      using s' f f0 by (simp_all add: emit_def)
    ultimately show ?thesis using e by blast
  next
    case (Some t')
    then have r: "r = Some t'" and s': "s' = s1"
      using assms fa by (simp_all add: fetch_block_def)
    have "trace s' = trace s @ Status FETCHING # evs
            @ (if r = None \<and> on_chest_empty s then [ChestEmpty] else [])"
      using s' r t f0 by simp
    moreover have "board s' = board s" "stats s' = stats s" "is_running s' = is_running s"
      "is_paused s' = is_paused s" "should_stop s' = should_stop s"
      "on_chest_empty s' = on_chest_empty s"
      using s' f f0 by simp_all
    ultimately show ?thesis using e by blast
  qed
qed

lemma fetch_block_all_fail:
  assumes "\<forall>k < nat (MAX_CHEST_RETRIES cfg). detect (detections s + k) = None"
  shows "fst (fetch_block cfg detect s) = None"
    and "count_list (trace (snd (fetch_block cfg detect s))) FetchNewBlock
           = count_list (trace s) FetchNewBlock + nat (MAX_CHEST_RETRIES cfg)"
proof -
  let ?s0 = "update_status FETCHING s"
  have "\<forall>k < nat (MAX_CHEST_RETRIES cfg - 0). detect (detections ?s0 + k) = None"
    using assms by (simp add: emit_def update_status_def)
  from fetch_attempts_all_fail [OF this]
  have a: "fst (fetch_attempts cfg detect 0 ?s0) = None"
    and c: "count_list (trace (snd (fetch_attempts cfg detect 0 ?s0))) FetchNewBlock
              = count_list (trace ?s0) FetchNewBlock + nat (MAX_CHEST_RETRIES cfg)"
    by simp_all
  obtain s1 where fa: "fetch_attempts cfg detect 0 ?s0 = (None, s1)"
    using a by (cases "fetch_attempts cfg detect 0 ?s0") simp
  show "fst (fetch_block cfg detect s) = None"
    by (simp add: fetch_block_def fa del: fetch_attempts.simps)
  show "count_list (trace (snd (fetch_block cfg detect s))) FetchNewBlock
           = count_list (trace s) FetchNewBlock + nat (MAX_CHEST_RETRIES cfg)"
    using c unfolding fetch_block_def fa by (simp add: emit_def update_status_def)
qed


lemma count_list_outside: "set evs \<subseteq> A \<Longrightarrow> x \<notin> A \<Longrightarrow> count_list evs x = 0"
  by (induction evs) auto

lemma no_place_in_fetch:
  "set evs \<subseteq> {FetchNewBlock, Status DETECTING, DetectAtParking} \<Longrightarrow> filter is_place evs = []"
  by (induction evs) (auto simp: is_place_def)

text \<open>
  C9 (as amended): when the detector recognises nothing on each of the
  \<open>MAX_CHEST_RETRIES\<close> attempts of a fetch, the pass ends with \<open>continue\<close>; it has
  fetched \<open>MAX_CHEST_RETRIES\<close> times, set the state PAUSED exactly once and raised
  \<open>is_paused\<close>, called the \<open>on_chest_empty\<close> callback exactly once if one is registered
  and not at all otherwise, issued no place and no discard action, and left the board
  and the statistics as they were.
\<close>

theorem retry_exhausted_pauses:
  assumes "is_running s" and "\<not> should_stop s" and "\<not> is_paused s"
    and "\<not> is_complete (board s)"
    and "\<forall>k < nat (MAX_CHEST_RETRIES cfg). detect (detections s + k) = None"
  shows "\<exists>s' evs. loop_iteration cfg detect s = Inr (Continue, s')
           \<and> trace s' = trace s @ evs
           \<and> count_list evs (Status PAUSED) = 1
           \<and> count_list evs ChestEmpty = (if on_chest_empty s then 1 else 0)
           \<and> count_list evs FetchNewBlock = nat (MAX_CHEST_RETRIES cfg)
           \<and> count_list evs DiscardCurrent = 0
           \<and> filter is_place evs = []
           \<and> state s' = PAUSED \<and> is_paused s'
           \<and> board s' = board s \<and> stats s' = stats s"
proof -
  obtain r s1 where fb: "fetch_block cfg detect s = (r, s1)"
    by (cases "fetch_block cfg detect s")
  have r: "r = None" using fetch_block_all_fail(1) [OF assms(5)] fb by simp
  from fetch_block_frame [OF fb] obtain evs0
    where fr: "board s1 = board s" "stats s1 = stats s"
      and t1: "trace s1 = trace s @ Status FETCHING # evs0
                 @ (if on_chest_empty s then [ChestEmpty] else [])"
      and e0: "set evs0 \<subseteq> {FetchNewBlock, Status DETECTING, DetectAtParking}"
    using r by auto
  let ?s' = "update_status PAUSED (s1\<lparr>is_paused := True\<rparr>)"
  let ?evs = "Status FETCHING # evs0 @ (if on_chest_empty s then [ChestEmpty] else [])
                @ [Status PAUSED]"
  have it: "loop_iteration cfg detect s = Inr (Continue, ?s')"
    using assms(1-4) by (simp add: loop_iteration_def fb r)
  have tr: "trace ?s' = trace s @ ?evs"
    using t1 by (simp add: emit_def update_status_def)
  have c1: "count_list evs0 (Status PAUSED) = 0" "count_list evs0 ChestEmpty = 0"
    "count_list evs0 DiscardCurrent = 0"
    using e0 by (auto intro: count_list_outside)
  have np: "filter is_place evs0 = []" using e0 by (rule no_place_in_fetch)
  have "count_list (trace s1) FetchNewBlock
          = count_list (trace s) FetchNewBlock + nat (MAX_CHEST_RETRIES cfg)"
    using fetch_block_all_fail(2) [OF assms(5)] fb by simp
  then have cf: "count_list evs0 FetchNewBlock = nat (MAX_CHEST_RETRIES cfg)"
    unfolding t1 by simp
  have "count_list ?evs (Status PAUSED) = 1"
    "count_list ?evs ChestEmpty = (if on_chest_empty s then 1 else 0)"
    "count_list ?evs FetchNewBlock = nat (MAX_CHEST_RETRIES cfg)"
    "count_list ?evs DiscardCurrent = 0"
    "filter is_place ?evs = []"
    using c1 cf np by (simp_all add: is_place_def)
  moreover have "state ?s' = PAUSED" "is_paused ?s'" "board ?s' = board s" "stats ?s' = stats s"
    using fr by (simp_all add: emit_def update_status_def)
  ultimately show ?thesis using it tr by blast
qed


theorem retry_exhausted_pauses_witness:
  "is_running notified_bot \<and> \<not> should_stop notified_bot \<and> \<not> is_paused notified_bot
   \<and> \<not> is_complete (board notified_bot)
   \<and> MAX_CHEST_RETRIES sample_config = 3
   \<and> never_detects (detections notified_bot) = None
   \<and> never_detects (detections notified_bot + 1) = None
   \<and> never_detects (detections notified_bot + 2) = None
   \<and> on_chest_empty notified_bot
   \<and> loop_iteration sample_config never_detects notified_bot = Inr (Continue, paused_notified)
   \<and> trace notified_bot = []
   \<and> count_list (trace paused_notified) (Status PAUSED) = 1
   \<and> count_list (trace paused_notified) ChestEmpty = 1
   \<and> count_list (trace paused_notified) FetchNewBlock = 3
   \<and> count_list (trace paused_notified) DiscardCurrent = 0
   \<and> filter is_place (trace paused_notified) = []
   \<and> board paused_notified = board notified_bot
   \<and> stats paused_notified = stats notified_bot"
proof -
  have h: "is_running notified_bot" "\<not> should_stop notified_bot" "\<not> is_paused notified_bot"
    "\<not> is_complete (board notified_bot)"
    by code_simp+
  have d: "\<forall>k < nat (MAX_CHEST_RETRIES sample_config).
             never_detects (detections notified_bot + k) = None"
    by (simp add: never_detects_def)
  have e: "loop_iteration sample_config never_detects notified_bot = Inr (Continue, paused_notified)"
    by code_simp
  have o: "on_chest_empty notified_bot" "trace notified_bot = []"
    by code_simp+
  from retry_exhausted_pauses [OF h d] obtain s' evs
    where "loop_iteration sample_config never_detects notified_bot = Inr (Continue, s')"
      and "trace s' = trace notified_bot @ evs"
      and "count_list evs (Status PAUSED) = 1"
      and "count_list evs ChestEmpty = (if on_chest_empty notified_bot then 1 else 0)"
      and "count_list evs FetchNewBlock = nat (MAX_CHEST_RETRIES sample_config)"
      and "count_list evs DiscardCurrent = 0"
      and "filter is_place evs = []"
      and "board s' = board notified_bot" and "stats s' = stats notified_bot"
    by blast
  then have "count_list (trace paused_notified) (Status PAUSED) = 1"
    "count_list (trace paused_notified) ChestEmpty = 1"
    "count_list (trace paused_notified) FetchNewBlock = 3"
    "count_list (trace paused_notified) DiscardCurrent = 0"
    "filter is_place (trace paused_notified) = []"
    "board paused_notified = board notified_bot"
    "stats paused_notified = stats notified_bot"
    using e o by (simp_all add: sample_config_simps)
  then show ?thesis
    using h e o by (simp add: sample_config_simps never_detects_def)
qed

text \<open>
  C9 as stated fails for a bot without a registered callback, which is how the
  constructor leaves it: after three failed detections the pass pauses, and
  \<open>on_chest_empty\<close> has not been called.
\<close>

theorem retry_exhausted_pauses_counterexample:
  "is_running running_bot \<and> \<not> should_stop running_bot \<and> \<not> is_paused running_bot
   \<and> \<not> is_complete (board running_bot)
   \<and> on_chest_empty running_bot = on_chest_empty (BotLogic_init sample_config)
   \<and> MAX_CHEST_RETRIES sample_config = 3
   \<and> never_detects 0 = None \<and> never_detects 1 = None \<and> never_detects 2 = None
   \<and> detections running_bot = 0 \<and> trace running_bot = []
   \<and> loop_iteration sample_config never_detects running_bot = Inr (Continue, paused_silent)
   \<and> state paused_silent = PAUSED
   \<and> count_list (trace paused_silent) ChestEmpty = 0
   \<and> count_list (trace paused_silent) ChestEmpty \<noteq> 1"
  by code_simp


lemma orange_pass_step:
  assumes "is_running s" and "\<not> should_stop s" and "\<not> is_paused s"
    and "\<not> is_complete (board s)"
    and "fetch_block cfg detect s = (Some ''ORANGE'', s1)"
  shows "\<exists>evs. loop_iteration cfg detect s = Inr (Continue, discard_block ''ORANGE'' s1)
           \<and> trace (discard_block ''ORANGE'' s1) = trace s @ evs
           \<and> count_list evs DiscardCurrent = 1
           \<and> filter is_place evs = []
           \<and> blocks_discarded (stats (discard_block ''ORANGE'' s1))
               = blocks_discarded (stats s) + 1
           \<and> blocks_placed (stats (discard_block ''ORANGE'' s1)) = blocks_placed (stats s)
           \<and> board (discard_block ''ORANGE'' s1) = board s
           \<and> is_running (discard_block ''ORANGE'' s1)
           \<and> \<not> should_stop (discard_block ''ORANGE'' s1)
           \<and> \<not> is_paused (discard_block ''ORANGE'' s1)"
proof -
  let ?s' = "discard_block ''ORANGE'' s1"
  from fetch_block_frame [OF assms(5)] obtain evs0
    where fr: "board s1 = board s" "stats s1 = stats s" "is_running s1 = is_running s"
        "is_paused s1 = is_paused s" "should_stop s1 = should_stop s"
      and t1: "trace s1 = trace s @ Status FETCHING # evs0"
      and e0: "set evs0 \<subseteq> {FetchNewBlock, Status DETECTING, DetectAtParking}"
    by auto
  let ?evs = "Status FETCHING # evs0 @ [Status DISCARDING, DiscardCurrent]"
  have it: "loop_iteration cfg detect s = Inr (Continue, ?s')"
    using assms(1-4) by (simp add: loop_iteration_def assms(5))
  have tr: "trace ?s' = trace s @ ?evs"
    using t1 by (simp add: discard_block_def Let_def emit_def update_status_def)
  have c: "count_list evs0 DiscardCurrent = 0"
    using e0 by (auto intro: count_list_outside)
  have np: "filter is_place evs0 = []" using e0 by (rule no_place_in_fetch)
  have "count_list ?evs DiscardCurrent = 1" "filter is_place ?evs = []"
    using c np by (simp_all add: is_place_def)
  moreover have "blocks_discarded (stats ?s') = blocks_discarded (stats s) + 1"
    "blocks_placed (stats ?s') = blocks_placed (stats s)" "board ?s' = board s"
    "is_running ?s'" "\<not> should_stop ?s'" "\<not> is_paused ?s'"
    using fr assms(1-3) by (simp_all add: discard_block_def Let_def emit_def update_status_def)
  ultimately show ?thesis using it tr by blast
qed

lemma fetch_block_first:
  assumes "0 < MAX_CHEST_RETRIES cfg" and "detect (detections s) = Some t"
  shows "fst (fetch_block cfg detect s) = Some t"
    and "detections (snd (fetch_block cfg detect s)) = detections s + 1"
proof -
  have d: "detect (detections (update_status FETCHING s)) = Some t"
    using assms(2) by (simp add: emit_def update_status_def)
  note fa = fetch_attempts_first
    [where detect = detect and s = "update_status FETCHING s", OF assms(1) d]
  show "fst (fetch_block cfg detect s) = Some t"
    unfolding fetch_block_def fa by simp
  show "detections (snd (fetch_block cfg detect s)) = detections s + 1"
    unfolding fetch_block_def fa by (simp add: emit_def update_status_def)
qed

lemma orange_passes:
  assumes "0 < MAX_CHEST_RETRIES cfg"
  shows "is_running s \<Longrightarrow> \<not> should_stop s \<Longrightarrow> \<not> is_paused s \<Longrightarrow> \<not> is_complete (board s) \<Longrightarrow>
         \<forall>k < n. detect (detections s + k) = Some ''ORANGE'' \<Longrightarrow>
         \<exists>s' evs. run_iterations cfg detect n s = Inr (Continue, s')
           \<and> trace s' = trace s @ evs
           \<and> count_list evs DiscardCurrent = n
           \<and> filter is_place evs = []
           \<and> blocks_discarded (stats s') = blocks_discarded (stats s) + int n
           \<and> blocks_placed (stats s') = blocks_placed (stats s)
           \<and> board s' = board s"
proof (induction n arbitrary: s)
  case 0
  then show ?case by simp
next
  case (Suc n)
  from Suc.prems(5) have d0: "detect (detections s) = Some ''ORANGE''"
    by (metis add.right_neutral zero_less_Suc)
  obtain r s1 where fb: "fetch_block cfg detect s = (r, s1)"
    by (cases "fetch_block cfg detect s")
  have r: "r = Some ''ORANGE''" and d1: "detections s1 = detections s + 1"
    using fetch_block_first [where detect = detect and s = s, OF assms d0] fb by simp_all
  let ?s' = "discard_block ''ORANGE'' s1"
  from orange_pass_step [OF Suc.prems(1-4) fb [unfolded r]] obtain evs1
    where it: "loop_iteration cfg detect s = Inr (Continue, ?s')"
      and t1: "trace ?s' = trace s @ evs1"
      and c1: "count_list evs1 DiscardCurrent = 1" and p1: "filter is_place evs1 = []"
      and st: "blocks_discarded (stats ?s') = blocks_discarded (stats s) + 1"
        "blocks_placed (stats ?s') = blocks_placed (stats s)"
      and b1: "board ?s' = board s"
      and fl: "is_running ?s'" "\<not> should_stop ?s'" "\<not> is_paused ?s'"
    by blast
  have dn: "detections ?s' = detections s + 1"
    using d1 by (simp add: discard_block_def Let_def emit_def update_status_def)
  have later: "\<forall>k < n. detect (detections ?s' + k) = Some ''ORANGE''"
  proof (intro allI impI)
    fix k assume "k < n"
    then have "Suc k < Suc n" by simp
    with Suc.prems(5) have "detect (detections s + Suc k) = Some ''ORANGE''" by blast
    then show "detect (detections ?s' + k) = Some ''ORANGE''" by (simp add: dn)
  qed
  have nc: "\<not> is_complete (board ?s')" using Suc.prems(4) b1 by simp
  from Suc.IH [OF fl nc later] obtain s2 evs2
    where run: "run_iterations cfg detect n ?s' = Inr (Continue, s2)"
      and t2: "trace s2 = trace ?s' @ evs2"
      and c2: "count_list evs2 DiscardCurrent = n" and p2: "filter is_place evs2 = []"
      and st2: "blocks_discarded (stats s2) = blocks_discarded (stats ?s') + int n"
        "blocks_placed (stats s2) = blocks_placed (stats ?s')"
      and b2: "board s2 = board ?s'"
    by blast
  have "run_iterations cfg detect (Suc n) s = Inr (Continue, s2)"
    by (simp add: it run)
  moreover have "trace s2 = trace s @ (evs1 @ evs2)" using t1 t2 by simp
  moreover have "count_list (evs1 @ evs2) DiscardCurrent = Suc n" using c1 c2 by simp
  moreover have "filter is_place (evs1 @ evs2) = []" using p1 p2 by simp
  moreover have "blocks_discarded (stats s2) = blocks_discarded (stats s) + int (Suc n)"
    using st st2 by simp
  moreover have "blocks_placed (stats s2) = blocks_placed (stats s)" using st st2 by simp
  moreover have "board s2 = board s" using b1 b2 by simp
  ultimately show ?case by blast
qed


text \<open>
  C10: in every pass of the worker loop in which the fetched block is classified as
  ORANGE, the pass issues exactly one discard action and no place action, the discard
  statistic grows by one, the placed statistic and the whole board (grid, placed counts,
  consumed set) stay as they were. When the detector answers ORANGE \<open>n\<close> times in a row,
  \<open>n\<close> passes raise the discard statistic by exactly \<open>n\<close>, again with the placed
  statistic and the board unchanged.
\<close>

theorem orange_is_discarded:
  "(is_running s \<and> \<not> should_stop s \<and> \<not> is_paused s \<and> \<not> is_complete (board s)
      \<and> fst (fetch_block cfg detect s) = Some ''ORANGE'' \<longrightarrow>
      (\<exists>s' evs. loop_iteration cfg detect s = Inr (Continue, s')
         \<and> trace s' = trace s @ evs
         \<and> count_list evs DiscardCurrent = 1
         \<and> filter is_place evs = []
         \<and> blocks_discarded (stats s') = blocks_discarded (stats s) + 1
         \<and> blocks_placed (stats s') = blocks_placed (stats s)
         \<and> board s' = board s))
   \<and> (is_running s \<and> \<not> should_stop s \<and> \<not> is_paused s \<and> \<not> is_complete (board s)
      \<and> 0 < MAX_CHEST_RETRIES cfg
      \<and> (\<forall>k < n. detect (detections s + k) = Some ''ORANGE'') \<longrightarrow>
      (\<exists>s' evs. run_iterations cfg detect n s = Inr (Continue, s')
         \<and> trace s' = trace s @ evs
         \<and> count_list evs DiscardCurrent = n
         \<and> filter is_place evs = []
         \<and> blocks_discarded (stats s') = blocks_discarded (stats s) + int n
         \<and> blocks_placed (stats s') = blocks_placed (stats s)
         \<and> board s' = board s))"
proof (intro conjI impI)
  assume h: "is_running s \<and> \<not> should_stop s \<and> \<not> is_paused s \<and> \<not> is_complete (board s)
      \<and> fst (fetch_block cfg detect s) = Some ''ORANGE''"
  then obtain s1 where fb: "fetch_block cfg detect s = (Some ''ORANGE'', s1)"
    by (cases "fetch_block cfg detect s") simp
  from h have "is_running s" "\<not> should_stop s" "\<not> is_paused s" "\<not> is_complete (board s)"
    by simp_all
  from orange_pass_step [OF this fb]
  show "\<exists>s' evs. loop_iteration cfg detect s = Inr (Continue, s')
         \<and> trace s' = trace s @ evs
         \<and> count_list evs DiscardCurrent = 1
         \<and> filter is_place evs = []
         \<and> blocks_discarded (stats s') = blocks_discarded (stats s) + 1
         \<and> blocks_placed (stats s') = blocks_placed (stats s)
         \<and> board s' = board s"
    by blast
next
  assume h: "is_running s \<and> \<not> should_stop s \<and> \<not> is_paused s \<and> \<not> is_complete (board s)
      \<and> 0 < MAX_CHEST_RETRIES cfg
      \<and> (\<forall>k < n. detect (detections s + k) = Some ''ORANGE'')"
  then have m: "0 < MAX_CHEST_RETRIES cfg"
    and f: "is_running s" "\<not> should_stop s" "\<not> is_paused s" "\<not> is_complete (board s)"
    and d: "\<forall>k < n. detect (detections s + k) = Some ''ORANGE''"
    by simp_all
  from orange_passes [OF m f d]
  show "\<exists>s' evs. run_iterations cfg detect n s = Inr (Continue, s')
         \<and> trace s' = trace s @ evs
         \<and> count_list evs DiscardCurrent = n
         \<and> filter is_place evs = []
         \<and> blocks_discarded (stats s') = blocks_discarded (stats s) + int n
         \<and> blocks_placed (stats s') = blocks_placed (stats s)
         \<and> board s' = board s" .
qed

theorem orange_is_discarded_witness:
  "is_running running_bot \<and> \<not> should_stop running_bot \<and> \<not> is_paused running_bot
   \<and> \<not> is_complete (board running_bot)
   \<and> 0 < MAX_CHEST_RETRIES sample_config
   \<and> fst (fetch_block sample_config always_orange running_bot) = Some ''ORANGE''
   \<and> always_orange (detections running_bot) = Some ''ORANGE''
   \<and> always_orange (detections running_bot + 1) = Some ''ORANGE''
   \<and> always_orange (detections running_bot + 2) = Some ''ORANGE''
   \<and> run_iterations sample_config always_orange 3 running_bot
       = Inr (Continue, after_three_oranges)
   \<and> trace running_bot = []
   \<and> count_list (trace after_three_oranges) DiscardCurrent = 3
   \<and> filter is_place (trace after_three_oranges) = []
   \<and> blocks_discarded (stats after_three_oranges) = blocks_discarded (stats running_bot) + 3
   \<and> blocks_placed (stats after_three_oranges) = blocks_placed (stats running_bot)
   \<and> board after_three_oranges = board running_bot
   \<and> loop_iteration sample_config always_orange running_bot = Inr (Continue, after_one_orange)
   \<and> blocks_discarded (stats after_one_orange) = blocks_discarded (stats running_bot) + 1
   \<and> board after_one_orange = board running_bot"
proof -
  have e1: "loop_iteration sample_config always_orange running_bot
              = Inr (Continue, after_one_orange)"
    by code_simp
  have f: "is_running running_bot \<and> \<not> should_stop running_bot \<and> \<not> is_paused running_bot
     \<and> \<not> is_complete (board running_bot)"
    by code_simp
  have m: "0 < MAX_CHEST_RETRIES sample_config" by (simp add: sample_config_simps)
  have fb: "fst (fetch_block sample_config always_orange running_bot) = Some ''ORANGE''"
    by code_simp
  have d: "\<forall>k < 3. always_orange (detections running_bot + k) = Some ''ORANGE''"
    by (simp add: always_orange_def)
  have e: "run_iterations sample_config always_orange 3 running_bot
             = Inr (Continue, after_three_oranges)"
    by code_simp
  have t0: "trace running_bot = []" by code_simp
  note one = orange_is_discarded
    [of running_bot sample_config always_orange, THEN conjunct1, THEN mp]
  note many = orange_is_discarded
    [of running_bot sample_config always_orange 3, THEN conjunct2, THEN mp]
  from one f fb obtain s1 where
    "loop_iteration sample_config always_orange running_bot = Inr (Continue, s1)"
    "blocks_discarded (stats s1) = blocks_discarded (stats running_bot) + 1"
    "board s1 = board running_bot"
    by blast
  then have 1: "blocks_discarded (stats after_one_orange)
                  = blocks_discarded (stats running_bot) + 1"
    "board after_one_orange = board running_bot"
    using e1 by simp_all
  from many f m d obtain s3 evs where
    "run_iterations sample_config always_orange 3 running_bot = Inr (Continue, s3)"
    "trace s3 = trace running_bot @ evs"
    "count_list evs DiscardCurrent = 3" "filter is_place evs = []"
    "blocks_discarded (stats s3) = blocks_discarded (stats running_bot) + int 3"
    "blocks_placed (stats s3) = blocks_placed (stats running_bot)"
    "board s3 = board running_bot"
    by blast
  then have 3: "count_list (trace after_three_oranges) DiscardCurrent = 3"
    "filter is_place (trace after_three_oranges) = []"
    "blocks_discarded (stats after_three_oranges) = blocks_discarded (stats running_bot) + 3"
    "blocks_placed (stats after_three_oranges) = blocks_placed (stats running_bot)"
    "board after_three_oranges = board running_bot"
    using e t0 by simp_all
  show ?thesis
    using f m fb e e1 t0 1 3 by (simp add: always_orange_def)
qed

end
